theory Spec2Isabelle
  imports Main
begin

section \<open>Strings of the interpreter\<close>

text \<open>
  A Python \<open>str\<close> is modelled as a \<open>string\<close>; a \<open>char\<close> stands for the code point
  of the same number, so the model covers the code points below 256.
  \<open>isspace\<close>, \<open>lower\<close> and \<open>strip\<close> are \<open>str.isspace\<close>, \<open>str.lower\<close> and
  \<open>str.strip()\<close> restricted to that range.
\<close>

definition isspace :: "char \<Rightarrow> bool" where
  "isspace c \<longleftrightarrow>
     (of_char c :: nat) \<in> {9, 10, 11, 12, 13, 28, 29, 30, 31, 32, 133, 160}"

definition lower_char :: "char \<Rightarrow> char" where
  "lower_char c =
     (let n = (of_char c :: nat)
      in if (65 \<le> n \<and> n \<le> 90) \<or> (192 \<le> n \<and> n \<le> 222 \<and> n \<noteq> 215)
         then char_of (n + 32) else c)"

definition lower :: "string \<Rightarrow> string" where
  "lower s = map lower_char s"

definition strip :: "string \<Rightarrow> string" where
  "strip s = rev (dropWhile isspace (rev (dropWhile isspace s)))"

section \<open>config.py\<close>

text \<open>
  \<open>os.environ\<close> is a map from names to values; \<open>os.getenv name\<close> is the lookup,
  with \<open>None\<close> for a name that is not set.
\<close>

type_synonym environ = "string \<rightharpoonup> string"

text \<open>
  \<open>warnings.warn\<close> is modelled by returning the warnings next to the value. Both
  messages of the module are f-strings over the setting's name, the raw value and the
  default; a warning keeps these three, its category being \<open>RuntimeWarning\<close>.
\<close>

datatype warning =
    InvalidBoolean string string bool
  | InvalidInteger string string int

definition get_env_bool :: "environ \<Rightarrow> string \<Rightarrow> bool \<Rightarrow> bool \<times> warning list" where
  "get_env_bool environ name dflt =
     (case environ name of
        None \<Rightarrow> (dflt, [])
      | Some raw_value \<Rightarrow>
          (let normalized = lower (strip raw_value)
           in if normalized \<in> {''1'', ''true'', ''yes'', ''on''} then (True, [])
              else if normalized \<in> {''0'', ''false'', ''no'', ''off''} then (False, [])
              else (dflt, [InvalidBoolean name raw_value dflt])))"

text \<open>
  \<open>int(raw_value)\<close> on a string. The conversion skips surrounding white space (its
  own set, smaller than the one of \<open>strip\<close>), reads one optional sign, and then needs
  decimal digits, where single underscores may stand between two digits. The interpreter
  may cap the number of digits it converts: \<open>max_str_digits\<close> is what
  \<open>sys.get_int_max_str_digits()\<close> returns, 0 for no cap. Anything else is the
  \<open>ValueError\<close> of the source, here \<open>None\<close>.
\<close>

definition int_space :: "char \<Rightarrow> bool" where
  "int_space c \<longleftrightarrow> (of_char c :: nat) \<in> {9, 10, 11, 12, 13, 32, 133, 160}"

definition is_digit :: "char \<Rightarrow> bool" where
  "is_digit c \<longleftrightarrow> 48 \<le> (of_char c :: nat) \<and> (of_char c :: nat) \<le> 57"

definition digit_val :: "char \<Rightarrow> nat" where
  "digit_val c = of_char c - 48"

fun scan_digits :: "nat \<Rightarrow> bool \<Rightarrow> string \<Rightarrow> nat option" where
  "scan_digits acc prev_digit [] = (if prev_digit then Some acc else None)"
| "scan_digits acc prev_digit (c # cs) =
     (if is_digit c then scan_digits (10 * acc + digit_val c) True cs
      else if c = CHR ''_'' \<and> prev_digit then scan_digits acc False cs
      else None)"

definition py_int :: "nat \<Rightarrow> string \<Rightarrow> int option" where
  "py_int max_str_digits s =
     (case rev (dropWhile int_space (rev (dropWhile int_space s))) of
        [] \<Rightarrow> None
      | c # cs \<Rightarrow>
          (let body = (if c = CHR ''-'' \<or> c = CHR ''+'' then cs else c # cs)
           in if 0 < max_str_digits \<and> max_str_digits < length (filter is_digit body) then None
              else map_option (\<lambda>n. if c = CHR ''-'' then - int n else int n)
                     (scan_digits 0 False body)))"

definition get_env_int ::
  "nat \<Rightarrow> environ \<Rightarrow> string \<Rightarrow> int \<Rightarrow> int \<times> warning list" where
  "get_env_int max_str_digits environ name dflt =
     (case environ name of
        None \<Rightarrow> (dflt, [])
      | Some raw_value \<Rightarrow>
          (case py_int max_str_digits raw_value of
             Some v \<Rightarrow> (v, [])
           | None \<Rightarrow> (dflt, [InvalidInteger name raw_value dflt])))"

text \<open>\<open>os.getenv(name, default)\<close> with a string default.\<close>

definition getenv_default :: "environ \<Rightarrow> string \<Rightarrow> string \<Rightarrow> string" where
  "getenv_default environ name dflt = (case environ name of None \<Rightarrow> dflt | Some v \<Rightarrow> v)"

record config =
  BASE_URL :: string
  DEFAULT_TIMEOUT :: int
  HEADLESS :: bool
  DEFAULT_BROWSER :: string
  TEST_DATA_PATH :: string

text \<open>The class attributes of \<open>Config\<close>, evaluated once, in the order of the source.\<close>

definition Config :: "nat \<Rightarrow> environ \<Rightarrow> config \<times> warning list" where
  "Config max_str_digits environ =
     (let (timeout, w1) = get_env_int max_str_digits environ ''DEFAULT_TIMEOUT'' 15000;
          (headless, w2) = get_env_bool environ ''HEADLESS'' False
      in (\<lparr>BASE_URL = getenv_default environ ''BASE_URL'' ''https://www.kiwi.com/en/'',
           DEFAULT_TIMEOUT = timeout,
           HEADLESS = headless,
           DEFAULT_BROWSER = getenv_default environ ''DEFAULT_BROWSER'' ''chromium'',
           TEST_DATA_PATH = getenv_default environ ''TEST_DATA_PATH'' ''test_data''\<rparr>,
          w1 @ w2))"

subsection \<open>Finding the environment file\<close>

text \<open>
  A \<open>pathlib\<close> path is kept as the expression that built it: \<open>Path s\<close>, or
  \<open>PathDiv p s\<close> for \<open>p / s\<close>. The file system is the predicate \<open>exists\<close> on
  such paths. \<open>load_dotenv\<close> belongs to a library; it is a parameter taking the
  \<open>dotenv_path\<close> argument (\<open>None\<close> when the call gives none), the \<open>override\<close>
  flag and the process environment, and returning the new environment.
\<close>

datatype path = Path string | PathDiv path string

type_synonym dotenv = "path option \<Rightarrow> bool \<Rightarrow> environ \<Rightarrow> environ"

definition candidate_paths :: "string option \<Rightarrow> path list" where
  "candidate_paths test_env =
     (case test_env of
        None \<Rightarrow> []
      | Some name \<Rightarrow>
          if name \<noteq> [] then [PathDiv (Path ''env'') (name @ ''.env''), Path (name @ ''.env'')]
          else [])
     @ [PathDiv (Path ''env'') ''test.env'', Path ''test.env'', Path ''.env'']"

text \<open>The \<open>for\<close> loop with its early return, then the fallback after the loop.\<close>

fun load_first :: "dotenv \<Rightarrow> (path \<Rightarrow> bool) \<Rightarrow> path list \<Rightarrow> environ \<Rightarrow> environ" where
  "load_first load_dotenv exists [] environ = load_dotenv None False environ"
| "load_first load_dotenv exists (env_path # rest) environ =
     (if exists env_path then load_dotenv (Some env_path) True environ
      else load_first load_dotenv exists rest environ)"

definition load_environment :: "dotenv \<Rightarrow> (path \<Rightarrow> bool) \<Rightarrow> environ \<Rightarrow> environ" where
  "load_environment load_dotenv exists environ =
     load_first load_dotenv exists (candidate_paths (environ ''TEST_ENV'')) environ"

text \<open>
  A plain reading of the library call, used where a concrete one is needed: the file at
  the path holds key/value pairs; with \<open>override\<close> they replace values already set,
  without it they only fill names that are not set. A call without a path finds nothing.
\<close>

definition simple_dotenv :: "(path \<Rightarrow> environ) \<Rightarrow> dotenv" where
  "simple_dotenv contents dotenv_path override environ =
     (case dotenv_path of
        None \<Rightarrow> environ
      | Some p \<Rightarrow> if override then environ ++ contents p else contents p ++ environ)"

section \<open>test_data/airports.py\<close>

definition AIRPORT_MAPPINGS :: "string \<rightharpoonup> string" where
  "AIRPORT_MAPPINGS = [''RTM'' \<mapsto> ''Rome, Italy'', ''MAD'' \<mapsto> ''Madrid, Spain'']"

section \<open>Calendar dates of the interpreter\<close>

text \<open>
  \<open>datetime.date\<close> with the operations the page object uses: \<open>today + timedelta\<close>
  and \<open>strftime\<close>. A date holds year, month and day; the addition goes through the
  proleptic Gregorian ordinal (day 1 is 0001-01-01), as the library does, and fails
  outside the years 1 to 9999.
\<close>

record date =
  year :: int
  month :: int
  day :: int

definition DAYS_IN_MONTH :: "int list" where
  "DAYS_IN_MONTH = [-1, 31, 28, 31, 30, 31, 30, 31, 31, 30, 31, 30, 31]"

definition DAYS_BEFORE_MONTH :: "int list" where
  "DAYS_BEFORE_MONTH = [-1, 0, 31, 59, 90, 120, 151, 181, 212, 243, 273, 304, 334]"

definition MAXORDINAL :: int where
  "MAXORDINAL = 3652059"

definition is_leap :: "int \<Rightarrow> bool" where
  "is_leap y \<longleftrightarrow> y mod 4 = 0 \<and> (y mod 100 \<noteq> 0 \<or> y mod 400 = 0)"

definition days_before_year :: "int \<Rightarrow> int" where
  "days_before_year y = (let y1 = y - 1 in y1 * 365 + y1 div 4 - y1 div 100 + y1 div 400)"

definition days_in_month :: "int \<Rightarrow> int \<Rightarrow> int" where
  "days_in_month y m = (if m = 2 \<and> is_leap y then 29 else DAYS_IN_MONTH ! nat m)"

definition days_before_month :: "int \<Rightarrow> int \<Rightarrow> int" where
  "days_before_month y m = DAYS_BEFORE_MONTH ! nat m + (if m > 2 \<and> is_leap y then 1 else 0)"

definition ymd2ord :: "int \<Rightarrow> int \<Rightarrow> int \<Rightarrow> int" where
  "ymd2ord y m d = days_before_year y + days_before_month y m + d"

definition ord2ymd :: "int \<Rightarrow> int \<times> int \<times> int" where
  "ord2ymd n0 =
     (let n = n0 - 1;
          n400 = n div 146097; n = n mod 146097;
          y = n400 * 400 + 1;
          n100 = n div 36524; n = n mod 36524;
          n4 = n div 1461; n = n mod 1461;
          n1 = n div 365; n = n mod 365;
          y = y + n100 * 100 + n4 * 4 + n1
      in if n1 = 4 \<or> n100 = 4 then (y - 1, 12, 31)
         else
           (let leapyear = (n1 = 3 \<and> (n4 \<noteq> 24 \<or> n100 = 3));
                m = (n + 50) div 32;
                preceding = DAYS_BEFORE_MONTH ! nat m + (if m > 2 \<and> leapyear then 1 else 0)
            in if preceding > n
               then (y, m - 1,
                     n - (preceding - (DAYS_IN_MONTH ! nat (m - 1)
                                        + (if m - 1 = 2 \<and> leapyear then 1 else 0))) + 1)
               else (y, m, n - preceding + 1)))"

definition valid_date :: "date \<Rightarrow> bool" where
  "valid_date d \<longleftrightarrow>
     1 \<le> year d \<and> year d \<le> 9999 \<and> 1 \<le> month d \<and> month d \<le> 12 \<and>
     1 \<le> day d \<and> day d \<le> days_in_month (year d) (month d)"

definition toordinal :: "date \<Rightarrow> int" where
  "toordinal d = ymd2ord (year d) (month d) (day d)"

definition fromordinal :: "int \<Rightarrow> date" where
  "fromordinal n = (case ord2ymd n of (y, m, d) \<Rightarrow> \<lparr>year = y, month = m, day = d\<rparr>)"

text \<open>
  Python's \<open>str\<close> of a natural number, and \<open>%Y\<close>, \<open>%m\<close>, \<open>%d\<close> padded with zeros
  to four, two and two digits, as the library documents them (below the year 1000 the C
  library of some platforms leaves \<open>%Y\<close> unpadded).
\<close>

definition digit_char :: "nat \<Rightarrow> char" where
  "digit_char n = char_of (48 + n)"

fun str_nat :: "nat \<Rightarrow> string" where
  "str_nat n = (if n < 10 then [digit_char n] else str_nat (n div 10) @ [digit_char (n mod 10)])"

definition zfill :: "nat \<Rightarrow> string \<Rightarrow> string" where
  "zfill w s = replicate (w - length s) (CHR ''0'') @ s"

definition strftime_ymd :: "date \<Rightarrow> string" where
  "strftime_ymd d =
     zfill 4 (str_nat (nat (year d))) @ ''-'' @ zfill 2 (str_nat (nat (month d)))
       @ ''-'' @ zfill 2 (str_nat (nat (day d)))"

section \<open>Exceptions and the browser\<close>

datatype exn =
    ValueError string
  | KeyError string
  | OverflowError
  | PlaywrightError string

fun exn_str :: "exn \<Rightarrow> string" where
  "exn_str (ValueError m) = m"
| "exn_str (KeyError k) = [CHR 0x27] @ k @ [CHR 0x27]"
| "exn_str OverflowError = ''date value out of range''"
| "exn_str (PlaywrightError m) = m"

text \<open>
  \<open>timedelta(days=n)\<close> and \<open>date + timedelta\<close>: both raise \<open>OverflowError\<close> out of
  range.
\<close>

definition timedelta_days :: "int \<Rightarrow> exn + int" where
  "timedelta_days n = (if \<bar>n\<bar> > 999999999 then Inl OverflowError else Inr n)"

definition date_add :: "date \<Rightarrow> int \<Rightarrow> exn + date" where
  "date_add d days =
     (let n = toordinal d + days
      in if 0 < n \<and> n \<le> MAXORDINAL then Inr (fromordinal n) else Inl OverflowError)"

text \<open>
  The page is an external collaborator. What the program does to it is the list of calls
  it has issued, in order; how the page reacts is a \<open>browser\<close>: whether a call raises
  (with the library's message) and what a query answers, both depending on the calls
  issued before. Printed lines are kept as well.
\<close>

datatype name_arg = NameStr string | NameRe string

datatype locator =
    Locator string
  | GetByRole string name_arg
  | GetByLabel string
  | First locator

datatype call =
    Goto string
  | WaitForLoadState string
  | Click locator "int option"
  | Fill locator string
  | IsVisible locator "int option"
  | IsChecked locator

record browser =
  fails :: "call list \<Rightarrow> call \<Rightarrow> string option"
  answers :: "call list \<Rightarrow> call \<Rightarrow> bool"

record ui =
  calls :: "call list"
  printed :: "string list"

type_synonym 'a io = "ui \<Rightarrow> (exn + 'a) \<times> ui"

definition return_io :: "'a \<Rightarrow> 'a io" where
  "return_io x = (\<lambda>s. (Inr x, s))"

definition raise_io :: "exn \<Rightarrow> 'a io" where
  "raise_io e = (\<lambda>s. (Inl e, s))"

definition bind_io :: "'a io \<Rightarrow> ('a \<Rightarrow> 'b io) \<Rightarrow> 'b io" where
  "bind_io m f = (\<lambda>s. case m s of (Inl e, s') \<Rightarrow> (Inl e, s') | (Inr x, s') \<Rightarrow> f x s')"

text \<open>\<open>try: m except Exception as e: h e\<close>\<close>

definition try_except :: "'a io \<Rightarrow> (exn \<Rightarrow> 'a io) \<Rightarrow> 'a io" where
  "try_except m h = (\<lambda>s. case m s of (Inl e, s') \<Rightarrow> h e s' | (Inr x, s') \<Rightarrow> (Inr x, s'))"

definition lift_io :: "exn + 'a \<Rightarrow> 'a io" where
  "lift_io r = (\<lambda>s. (r, s))"

definition print_io :: "string \<Rightarrow> unit io" where
  "print_io line = (\<lambda>s. (Inr (), s\<lparr>printed := printed s @ [line]\<rparr>))"

definition perform :: "browser \<Rightarrow> call \<Rightarrow> bool io" where
  "perform br c =
     (\<lambda>s. let s' = s\<lparr>calls := calls s @ [c]\<rparr>
          in case fails br (calls s) c of
               Some msg \<Rightarrow> (Inl (PlaywrightError msg), s')
             | None \<Rightarrow> (Inr (answers br (calls s) c), s'))"

definition click :: "browser \<Rightarrow> locator \<Rightarrow> int option \<Rightarrow> unit io" where
  "click br l timeout = bind_io (perform br (Click l timeout)) (\<lambda>_. return_io ())"

definition fill :: "browser \<Rightarrow> locator \<Rightarrow> string \<Rightarrow> unit io" where
  "fill br l v = bind_io (perform br (Fill l v)) (\<lambda>_. return_io ())"

definition goto :: "browser \<Rightarrow> string \<Rightarrow> unit io" where
  "goto br u = bind_io (perform br (Goto u)) (\<lambda>_. return_io ())"

definition wait_for_load_state :: "browser \<Rightarrow> string \<Rightarrow> unit io" where
  "wait_for_load_state br st = bind_io (perform br (WaitForLoadState st)) (\<lambda>_. return_io ())"

definition is_visible :: "browser \<Rightarrow> locator \<Rightarrow> int option \<Rightarrow> bool io" where
  "is_visible br l timeout = perform br (IsVisible l timeout)"

definition is_checked :: "browser \<Rightarrow> locator \<Rightarrow> bool io" where
  "is_checked br l = perform br (IsChecked l)"

section \<open>tests/pages/home_page.py\<close>

text \<open>
  The locator properties of \<open>HomePage\<close>. A property builds its locator anew at each
  access and touches nothing on the page, so each is a constant.
\<close>

definition privacy_popup_accept_button :: locator where
  "privacy_popup_accept_button = Locator ''[data-test='CookiesPopup-Accept']''"

definition trip_type_dropdown :: locator where
  "trip_type_dropdown = GetByRole ''button'' (NameRe ''Return|One-way'')"

definition one_way_option_in_dropdown :: locator where
  "one_way_option_in_dropdown = Locator ''[data-test='ModePopupOption-oneWay']''"

definition from_airport_input :: locator where
  "from_airport_input =
     Locator ''[data-test='PlacePickerInput-origin'] [data-test='SearchField-input']''"

definition to_airport_input :: locator where
  "to_airport_input =
     Locator ''[data-test='PlacePickerInput-destination'] [data-test='SearchField-input']''"

definition departure_date_input :: locator where
  "departure_date_input = Locator ''[data-test='SearchFieldDateInput']''"

definition search_button :: locator where
  "search_button = Locator ''[data-test='LandingSearchButton']''"

definition clear_button_on_departure :: locator where
  "clear_button_on_departure =
     Locator ''div[data-test='PlacePickerInput-origin'] div[data-test='PlacePickerInputPlace-close']''"

definition clear_button_on_arrival :: locator where
  "clear_button_on_arrival =
     Locator ''div[data-test='PlacePickerInput-destination'] div[data-test='PlacePickerInputPlace-close']''"

definition search_results_list :: locator where
  "search_results_list = Locator ''div[data-test='ResultList-results']''"

definition accept_privacy_consent :: "config \<Rightarrow> browser \<Rightarrow> bool io" where
  "accept_privacy_consent cfg br =
     try_except
       (bind_io (is_visible br privacy_popup_accept_button (Some 5000)) (\<lambda>visible.
          if visible
          then bind_io (click br privacy_popup_accept_button (Some (DEFAULT_TIMEOUT cfg)))
                 (\<lambda>_. return_io True)
          else bind_io (print_io ''Privacy consent popup not visible'')
                 (\<lambda>_. return_io False)))
       (\<lambda>e. bind_io (print_io (''Error while accepting privacy consent: '' @ exn_str e))
                 (\<lambda>_. return_io False))"

definition navigate :: "config \<Rightarrow> browser \<Rightarrow> unit io" where
  "navigate cfg br =
     bind_io (goto br (BASE_URL cfg)) (\<lambda>_.
     bind_io (wait_for_load_state br ''load'') (\<lambda>_.
     bind_io (accept_privacy_consent cfg br) (\<lambda>_. return_io ())))"

definition select_one_way_trip :: "browser \<Rightarrow> unit io" where
  "select_one_way_trip br =
     bind_io (click br trip_type_dropdown None) (\<lambda>_.
       click br one_way_option_in_dropdown None)"

definition not_found_message :: "string \<Rightarrow> string" where
  "not_found_message airport_code =
     ''Airport code '' @ [CHR 0x27] @ airport_code @ [CHR 0x27] @ '' not found in mappings''"

text \<open>\<open>AIRPORT_MAPPINGS[airport_code]\<close>: a missing key raises \<open>KeyError\<close>.\<close>

definition airport_name :: "string \<Rightarrow> string io" where
  "airport_name airport_code =
     (case AIRPORT_MAPPINGS airport_code of
        None \<Rightarrow> raise_io (KeyError airport_code)
      | Some full_airport_name \<Rightarrow> return_io full_airport_name)"

definition set_departure_airport :: "browser \<Rightarrow> string \<Rightarrow> unit io" where
  "set_departure_airport br airport_code =
     (if airport_code \<notin> dom AIRPORT_MAPPINGS
      then raise_io (ValueError (not_found_message airport_code))
      else
        bind_io (is_visible br clear_button_on_departure None) (\<lambda>visible.
        bind_io (if visible then click br clear_button_on_departure None else return_io ()) (\<lambda>_.
        bind_io (click br from_airport_input None) (\<lambda>_.
        bind_io (fill br from_airport_input airport_code) (\<lambda>_.
        bind_io (airport_name airport_code) (\<lambda>full_airport_name.
          click br (GetByRole ''button'' (NameStr (full_airport_name @ '' Add''))) None))))))"

definition set_arrival_airport :: "browser \<Rightarrow> string \<Rightarrow> unit io" where
  "set_arrival_airport br airport_code =
     (if airport_code \<notin> dom AIRPORT_MAPPINGS
      then raise_io (ValueError (not_found_message airport_code))
      else
        bind_io (is_visible br clear_button_on_arrival None) (\<lambda>visible.
        bind_io (if visible then click br clear_button_on_arrival None else return_io ()) (\<lambda>_.
        bind_io (click br to_airport_input None) (\<lambda>_.
        bind_io (fill br to_airport_input airport_code) (\<lambda>_.
        bind_io (airport_name airport_code) (\<lambda>full_airport_name.
          click br (GetByRole ''button'' (NameStr (full_airport_name @ '' Add''))) None))))))"

definition calendar_day :: "string \<Rightarrow> locator" where
  "calendar_day target_date_str =
     Locator (''div[data-test='CalendarDay'][data-value='' @ [CHR 0x27] @ target_date_str
              @ [CHR 0x27] @ '']'')"

text \<open>\<open>today\<close> is what \<open>datetime.date.today()\<close> returns when the method runs.\<close>

definition set_departure_date :: "browser \<Rightarrow> date \<Rightarrow> int \<Rightarrow> unit io" where
  "set_departure_date br today total_days =
     bind_io (click br departure_date_input None) (\<lambda>_.
     bind_io (lift_io (timedelta_days total_days)) (\<lambda>delta.
     bind_io (lift_io (date_add today delta)) (\<lambda>target_date.
     bind_io (click br (calendar_day (strftime_ymd target_date)) None) (\<lambda>_.
       click br (Locator ''[data-test='SearchFormDoneButton']'') None))))"

definition accommodation_checkbox :: locator where
  "accommodation_checkbox = GetByLabel ''Check accommodation with Kiwi.com Hotels''"

definition checkbox_icon :: locator where
  "checkbox_icon = First (Locator ''.orbit-checkbox-icon-container > .orbit-icon'')"

definition uncheck_accommodation_option :: "browser \<Rightarrow> unit io" where
  "uncheck_accommodation_option br =
     bind_io (is_checked br accommodation_checkbox) (\<lambda>checked.
       if checked then click br checkbox_icon None else return_io ())"

definition click_search_button :: "browser \<Rightarrow> unit io" where
  "click_search_button br = click br search_button None"

section \<open>tests/steps/test_basic_search_steps.py\<close>

definition unsupported_unit_message :: "string \<Rightarrow> string" where
  "unsupported_unit_message unit =
     ''Unsupported time unit: '' @ unit @ ''. Please use '' @ [CHR 0x27] @ ''week(s)''
       @ [CHR 0x27] @ '' or '' @ [CHR 0x27] @ ''day(s)'' @ [CHR 0x27] @ ''.''"

definition set_departure_time :: "browser \<Rightarrow> date \<Rightarrow> int \<Rightarrow> string \<Rightarrow> unit io" where
  "set_departure_time br today v unit =
     bind_io
       (if unit = ''week'' \<or> unit = ''weeks'' then return_io (v * 7)
        else if unit = ''day'' \<or> unit = ''days'' then return_io v
        else raise_io (ValueError (unsupported_unit_message unit)))
       (\<lambda>total_days. set_departure_date br today total_days)"

section \<open>conftest.py\<close>

text \<open>
  The module global \<open>_test_failed_page\<close>, with what the report hook attaches and
  prints. Taking the screenshot and attaching it belong to libraries and may raise; they
  are parameters, with \<open>Inl\<close> or \<open>Some\<close> carrying the message of the exception.
\<close>

datatype hook_line = ScreenshotAttached | ScreenshotFailed string | PageNotAvailable

record 'p harness =
  test_failed_page :: "'p option"
  attachments :: "(string \<times> string) list"
  hook_output :: "hook_line list"

record 'p tools =
  screenshot :: "'p \<Rightarrow> string + string"
  allure_attach :: "string \<Rightarrow> string \<Rightarrow> string option"

definition initial_harness :: "'p harness" where
  "initial_harness = \<lparr>test_failed_page = None, attachments = [], hook_output = []\<rparr>"

text \<open>The \<open>page\<close> fixture: the part before its \<open>yield\<close> and the part after it.\<close>

definition page_setup :: "'p \<Rightarrow> 'p harness \<Rightarrow> 'p harness" where
  "page_setup p h = h\<lparr>test_failed_page := Some p\<rparr>"

definition page_teardown :: "'p harness \<Rightarrow> 'p harness" where
  "page_teardown h = h\<lparr>test_failed_page := None\<rparr>"

definition pytest_runtest_makereport ::
  "'p tools \<Rightarrow> string \<Rightarrow> bool \<Rightarrow> 'p harness \<Rightarrow> 'p harness" where
  "pytest_runtest_makereport t when failed h =
     (if when = ''call'' \<and> failed then
        (case test_failed_page h of
           Some p \<Rightarrow>
             (case screenshot t p of
                Inl e \<Rightarrow> h\<lparr>hook_output := hook_output h @ [ScreenshotFailed e]\<rparr>
              | Inr screenshot_bytes \<Rightarrow>
                  (case allure_attach t screenshot_bytes ''failure_screenshot'' of
                     Some e \<Rightarrow> h\<lparr>hook_output := hook_output h @ [ScreenshotFailed e]\<rparr>
                   | None \<Rightarrow>
                       h\<lparr>attachments := attachments h @ [(screenshot_bytes, ''failure_screenshot'')],
                         hook_output := hook_output h @ [ScreenshotAttached]\<rparr>))
         | None \<Rightarrow> h\<lparr>hook_output := hook_output h @ [PageNotAvailable]\<rparr>)
      else h)"

text \<open>
  One test that uses the \<open>page\<close> fixture, as the test runner drives it: the fixture is
  set up, the test body runs and passes or fails (it does not touch the module global),
  and the rest of the fixture runs at teardown whatever the outcome was. The report hook
  runs after each of the three phases. \<open>test_states\<close> lists the state after each step.
\<close>

record 'p test_case =
  tc_page :: 'p
  tc_failed :: bool

definition test_states :: "'p tools \<Rightarrow> 'p test_case \<Rightarrow> 'p harness \<Rightarrow> 'p harness list" where
  "test_states t tc h =
     (let h1 = page_setup (tc_page tc) h;
          h2 = pytest_runtest_makereport t ''setup'' False h1;
          h3 = pytest_runtest_makereport t ''call'' (tc_failed tc) h2;
          h4 = page_teardown h3;
          h5 = pytest_runtest_makereport t ''teardown'' False h4
      in [h1, h2, h3, h4, h5])"

definition run_test :: "'p tools \<Rightarrow> 'p test_case \<Rightarrow> 'p harness \<Rightarrow> 'p harness" where
  "run_test t tc h = last (test_states t tc h)"

fun run_tests :: "'p tools \<Rightarrow> 'p test_case list \<Rightarrow> 'p harness \<Rightarrow> 'p harness" where
  "run_tests t [] h = h"
| "run_tests t (tc # tcs) h = run_tests t tcs (run_test t tc h)"

section \<open>Notions used in the statements\<close>

text \<open>The value of a string of decimal digits.\<close>

definition decimal_value :: "string \<Rightarrow> nat" where
  "decimal_value ds = foldl (\<lambda>acc c. 10 * acc + digit_val c) 0 ds"

text \<open>
  What a numeric string is, said without the scanner: surrounding white space and one
  optional sign set aside, the rest splits at underscores into groups, each a non-empty
  run of decimal digits. Its number of digits is what the interpreter's cap counts, and
  its value is the decimal value of its digits, negated after a minus sign.
\<close>

fun split_on :: "char \<Rightarrow> string \<Rightarrow> string list" where
  "split_on sep [] = [[]]"
| "split_on sep (c # cs) =
     (if c = sep then [] # split_on sep cs
      else (case split_on sep cs of g # gs \<Rightarrow> (c # g) # gs | [] \<Rightarrow> [[c]]))"

text \<open>\<open>split_on\<close> is \<open>str.split(sep)\<close>.\<close>

definition int_trim :: "string \<Rightarrow> string" where
  "int_trim s = rev (dropWhile int_space (rev (dropWhile int_space s)))"

definition unsigned_part :: "string \<Rightarrow> string" where
  "unsigned_part t =
     (case t of [] \<Rightarrow> [] | c # cs \<Rightarrow> if c = CHR ''-'' \<or> c = CHR ''+'' then cs else c # cs)"

definition digit_groups :: "string \<Rightarrow> bool" where
  "digit_groups body \<longleftrightarrow>
     list_all (\<lambda>g. g \<noteq> [] \<and> list_all is_digit g) (split_on (CHR ''_'') body)"

definition numeric_string :: "string \<Rightarrow> bool" where
  "numeric_string s \<longleftrightarrow> digit_groups (unsigned_part (int_trim s))"

definition digit_count :: "string \<Rightarrow> nat" where
  "digit_count s = length (filter is_digit s)"

definition numeric_value :: "string \<Rightarrow> int" where
  "numeric_value s =
     (let n = int (decimal_value (filter is_digit s))
      in if take 1 (int_trim s) = ''-'' then - n else n)"

text \<open>
  The ISO form \<open>YYYY-MM-DD\<close> of a date, written out digit by digit: four digits of
  the year, two of the month, two of the day.
\<close>

definition iso_date :: "date \<Rightarrow> string" where
  "iso_date d =
     (let y = nat (year d); m = nat (month d); dd = nat (day d)
      in [digit_char (y div 1000), digit_char (y div 100 mod 10), digit_char (y div 10 mod 10),
          digit_char (y mod 10), CHR ''-'', digit_char (m div 10), digit_char (m mod 10),
          CHR ''-'', digit_char (dd div 10), digit_char (dd mod 10)])"

text \<open>
  The month and day part of \<open>ord2ymd\<close>, for a day number \<open>n\<close> inside a year, and
  what is expected of it.
\<close>

definition month_day :: "int \<Rightarrow> bool \<Rightarrow> int \<times> int" where
  "month_day n leapyear =
     (let m = (n + 50) div 32;
          preceding = DAYS_BEFORE_MONTH ! nat m + (if m > 2 \<and> leapyear then 1 else 0)
      in if preceding > n
         then (m - 1,
               n - (preceding - (DAYS_IN_MONTH ! nat (m - 1)
                                  + (if m - 1 = 2 \<and> leapyear then 1 else 0))) + 1)
         else (m, n - preceding + 1))"

definition month_day_ok :: "int \<Rightarrow> bool \<Rightarrow> bool" where
  "month_day_ok n leapyear =
     (case month_day n leapyear of (m, d) \<Rightarrow>
        1 \<le> m \<and> m \<le> 12 \<and> 1 \<le> d
        \<and> d \<le> (if m = 2 \<and> leapyear then 29 else DAYS_IN_MONTH ! nat m)
        \<and> DAYS_BEFORE_MONTH ! nat m + (if m > 2 \<and> leapyear then 1 else 0) + d = n + 1)"

text \<open>
  The calls an operation has added to the page, and the messages of those among them
  that the browser let fail. An operation \<open>propagates\<close> when a failed call is exactly
  what makes it end with the library's error.
\<close>

definition new_calls :: "ui \<Rightarrow> ui \<Rightarrow> call list" where
  "new_calls s s' = drop (length (calls s)) (calls s')"

fun failures :: "browser \<Rightarrow> call list \<Rightarrow> call list \<Rightarrow> string list" where
  "failures br hist [] = []"
| "failures br hist (c # cs) =
     (case fails br hist c of Some m \<Rightarrow> [m] | None \<Rightarrow> []) @ failures br (hist @ [c]) cs"

definition propagates :: "browser \<Rightarrow> unit io \<Rightarrow> ui \<Rightarrow> bool" where
  "propagates br op s \<longleftrightarrow>
     (case op s of (r, s') \<Rightarrow>
        failures br (calls s) (new_calls s s')
          = (case r of Inl (PlaywrightError m) \<Rightarrow> [m] | _ \<Rightarrow> []))"

subsection \<open>Concrete inputs\<close>

definition initial_ui :: ui where
  "initial_ui = \<lparr>calls = [], printed = []\<rparr>"

text \<open>A page on which every call succeeds and every query answers no.\<close>

definition ok_browser :: browser where
  "ok_browser = \<lparr>fails = (\<lambda>hist c. None), answers = (\<lambda>hist c. False)\<rparr>"

text \<open>A page on which every click runs into its timeout.\<close>

definition click_timeout_browser :: browser where
  "click_timeout_browser =
     \<lparr>fails = (\<lambda>hist c. case c of Click l t \<Rightarrow> Some ''Timeout 30000ms exceeded.'' | _ \<Rightarrow> None),
      answers = (\<lambda>hist c. False)\<rparr>"

text \<open>A page whose check box starts checked and changes with each click on its icon.\<close>

definition checkbox_browser :: browser where
  "checkbox_browser =
     \<lparr>fails = (\<lambda>hist c. None),
      answers = (\<lambda>hist c. case c of
                   IsChecked l \<Rightarrow> even (length (filter (\<lambda>x. x = Click checkbox_icon None) hist))
                 | _ \<Rightarrow> False)\<rparr>"

text \<open>A string of 4301 digits, one more than the default cap of the interpreter.\<close>

definition long_digit_string :: string where
  "long_digit_string = replicate 4301 (CHR ''1'')"

definition staging_environ :: environ where
  "staging_environ = [''TEST_ENV'' \<mapsto> ''staging'', ''BASE_URL'' \<mapsto> ''http://localhost/'']"

definition staging_exists :: "path \<Rightarrow> bool" where
  "staging_exists p \<longleftrightarrow> p = PathDiv (Path ''env'') ''test.env'' \<or> p = Path ''.env''"

definition no_files :: "path \<Rightarrow> bool" where
  "no_files p \<longleftrightarrow> False"

definition staging_contents :: "path \<Rightarrow> environ" where
  "staging_contents p =
     (if p = PathDiv (Path ''env'') ''test.env'' then [''BASE_URL'' \<mapsto> ''https://test.kiwi.com/'']
      else [''BASE_URL'' \<mapsto> ''https://other.kiwi.com/''])"

definition example_today :: date where
  "example_today = \<lparr>year = 2026, month = 11, day = 5\<rparr>"

definition example_tools :: "nat tools" where
  "example_tools = \<lparr>screenshot = (\<lambda>p. Inr ''png''), allure_attach = (\<lambda>b n. None)\<rparr>"

definition example_config :: config where
  "example_config = fst (Config 4300 Map.empty)"

definition failing_browser :: browser where
  "failing_browser =
     \<lparr>fails = (\<lambda>hist c. case c of
                  Click l t \<Rightarrow> Some ''Timeout 30000ms exceeded.''
                | Goto u \<Rightarrow> Some ''net::ERR_INTERNET_DISCONNECTED''
                | _ \<Rightarrow> None),
      answers = (\<lambda>hist c. True)\<rparr>"

section \<open>Boolean settings\<close>

lemma get_env_bool_unset:
  "environ name = None \<Longrightarrow> get_env_bool environ name d = (d, [])"
  by (simp add: get_env_bool_def)

text \<open>
  C1. When the setting has a value, the value's stripped and lower-cased form decides:
  one of \<open>1, true, yes, on\<close> gives True, one of \<open>0, false, no, off\<close> gives False, both
  without a warning; every other value (the empty one included) gives the caller's
  default together with one warning about that value.
\<close>

theorem get_env_bool_tokens:
  assumes "environ name = Some raw"
  shows "(lower (strip raw) \<in> {''1'', ''true'', ''yes'', ''on''} \<longrightarrow>
            get_env_bool environ name d = (True, []))
       \<and> (lower (strip raw) \<in> {''0'', ''false'', ''no'', ''off''} \<longrightarrow>
            get_env_bool environ name d = (False, []))
       \<and> (lower (strip raw) \<notin> {''1'', ''true'', ''yes'', ''on'', ''0'', ''false'', ''no'', ''off''} \<longrightarrow>
            get_env_bool environ name d = (d, [InvalidBoolean name raw d]))"
  using assms by (auto simp: get_env_bool_def Let_def)


theorem get_env_bool_tokens_witness:
  "get_env_bool [''HEADLESS'' \<mapsto> '' TRUE ''] ''HEADLESS'' False = (True, [])
   \<and> get_env_bool [''HEADLESS'' \<mapsto> ''Off''] ''HEADLESS'' True = (False, [])
   \<and> get_env_bool [''HEADLESS'' \<mapsto> ''maybe''] ''HEADLESS'' True
       = (True, [InvalidBoolean ''HEADLESS'' ''maybe'' True])"
proof -
  have e1: "[''HEADLESS'' \<mapsto> '' TRUE ''] ''HEADLESS'' = Some '' TRUE ''" by simp
  have e2: "[''HEADLESS'' \<mapsto> ''Off''] ''HEADLESS'' = Some ''Off''" by simp
  have e3: "[''HEADLESS'' \<mapsto> ''maybe''] ''HEADLESS'' = Some ''maybe''" by simp
  have t1: "lower (strip '' TRUE '') \<in> {''1'', ''true'', ''yes'', ''on''}" by code_simp
  have t2: "lower (strip ''Off'') \<in> {''0'', ''false'', ''no'', ''off''}" by code_simp
  have t3: "lower (strip ''maybe'')
              \<notin> {''1'', ''true'', ''yes'', ''on'', ''0'', ''false'', ''no'', ''off''}"
    by code_simp
  from get_env_bool_tokens [where environ = "[''HEADLESS'' \<mapsto> '' TRUE '']" and d = False] e1 t1
  have r1: "get_env_bool [''HEADLESS'' \<mapsto> '' TRUE ''] ''HEADLESS'' False = (True, [])"
    by blast
  from get_env_bool_tokens [where environ = "[''HEADLESS'' \<mapsto> ''Off'']" and d = True] e2 t2
  have r2: "get_env_bool [''HEADLESS'' \<mapsto> ''Off''] ''HEADLESS'' True = (False, [])"
    by blast
  from get_env_bool_tokens [where environ = "[''HEADLESS'' \<mapsto> ''maybe'']" and d = True] e3 t3
  have r3: "get_env_bool [''HEADLESS'' \<mapsto> ''maybe''] ''HEADLESS'' True
              = (True, [InvalidBoolean ''HEADLESS'' ''maybe'' True])"
    by blast
  from r1 r2 r3 show ?thesis by simp
qed


section \<open>Integer settings\<close>

lemma scan_digits_all_digits:
  "\<forall>c\<in>set ds. is_digit c \<Longrightarrow> ds \<noteq> [] \<or> p \<Longrightarrow>
     scan_digits acc p ds = Some (foldl (\<lambda>a c. 10 * a + digit_val c) acc ds)"
  by (induction ds arbitrary: acc p) auto

lemma digit_not_int_space: "is_digit c \<Longrightarrow> \<not> int_space c"
  by (auto simp: is_digit_def int_space_def)

lemma digit_not_sign: "is_digit c \<Longrightarrow> c \<noteq> CHR ''-'' \<and> c \<noteq> CHR ''+''"
  by (auto simp: is_digit_def)

lemma dropWhile_digits:
  "\<forall>c\<in>set ds. is_digit c \<Longrightarrow> dropWhile int_space ds = ds"
  by (cases ds) (auto simp: digit_not_int_space)

lemma py_int_digits:
  assumes "ds \<noteq> []" and "\<forall>c\<in>set ds. is_digit c" and "lim = 0 \<or> length ds \<le> lim"
  shows "py_int lim ds = Some (int (decimal_value ds))"
proof -
  from assms(2) have "\<forall>c\<in>set (rev ds). is_digit c" by simp
  then have "dropWhile int_space (rev ds) = rev ds" by (rule dropWhile_digits)
  with assms(2) have core: "rev (dropWhile int_space (rev (dropWhile int_space ds))) = ds"
    by (simp add: dropWhile_digits)
  from assms obtain c cs where ds: "ds = c # cs" by (cases ds) auto
  with assms(2) have "is_digit c" by simp
  then have ns: "c \<noteq> CHR ''-''" "c \<noteq> CHR ''+''" using digit_not_sign by auto
  have "scan_digits 0 False ds = Some (decimal_value ds)"
    unfolding decimal_value_def using assms by (intro scan_digits_all_digits) auto
  moreover from assms(2) have "filter is_digit ds = ds" by simp
  ultimately have "py_int lim (c # cs) = Some (int (decimal_value (c # cs)))"
    using ds ns assms(3) core by (auto simp: py_int_def Let_def)
  with ds show ?thesis by simp
qed

lemma split_on_nonempty: "split_on sep s \<noteq> []"
  by (induction s) (auto split: list.splits)

lemma underscore_not_digit: "\<not> is_digit (CHR ''_'')"
  by (simp add: is_digit_def)

lemma scan_digits_groups:
  "scan_digits acc p body =
     (case split_on (CHR ''_'') body of
        g # gs \<Rightarrow>
          if (p \<or> g \<noteq> []) \<and> list_all is_digit g
             \<and> list_all (\<lambda>h. h \<noteq> [] \<and> list_all is_digit h) gs
          then Some (foldl (\<lambda>a c. 10 * a + digit_val c) acc (filter is_digit body))
          else None
      | [] \<Rightarrow> None)"
proof (induction body arbitrary: acc p)
  case Nil
  then show ?case by simp
next
  case (Cons c cs)
  obtain g gs where sp: "split_on (CHR ''_'') cs = g # gs"
    using split_on_nonempty [of "CHR ''_''" cs] by (cases "split_on (CHR ''_'') cs") auto
  show ?case
  proof (cases "is_digit c")
    case True
    then have "c \<noteq> CHR ''_''" using underscore_not_digit by auto
    with True sp Cons.IH [of "10 * acc + digit_val c" True] show ?thesis by simp
  next
    case False
    show ?thesis
    proof (cases "c = CHR ''_''")
      case True
      with False sp Cons.IH [of acc False] show ?thesis by simp
    next
      case c: False
      with False sp show ?thesis by simp
    qed
  qed
qed

lemma scan_digits_start:
  "scan_digits 0 False body =
     (if digit_groups body then Some (decimal_value (filter is_digit body)) else None)"
proof -
  obtain g gs where sp: "split_on (CHR ''_'') body = g # gs"
    using split_on_nonempty [of "CHR ''_''" body] by (cases "split_on (CHR ''_'') body") auto
  show ?thesis
    unfolding scan_digits_groups [of 0 False body] digit_groups_def decimal_value_def sp
    by auto
qed


lemma filter_dropWhile_digits:
  "filter is_digit (dropWhile int_space s) = filter is_digit s"
  by (induction s) (auto simp: digit_not_int_space)

lemma filter_int_trim: "filter is_digit (int_trim s) = filter is_digit s"
proof -
  have "filter is_digit (int_trim s)
          = rev (filter is_digit (dropWhile int_space (rev (dropWhile int_space s))))"
    by (simp add: int_trim_def rev_filter)
  also have "\<dots> = rev (filter is_digit (rev (dropWhile int_space s)))"
    by (simp only: filter_dropWhile_digits)
  also have "\<dots> = filter is_digit (dropWhile int_space s)"
    by (simp add: rev_filter [symmetric])
  finally show ?thesis by (simp only: filter_dropWhile_digits)
qed

lemma filter_unsigned_part: "filter is_digit (unsigned_part t) = filter is_digit t"
  by (cases t) (auto simp: unsigned_part_def is_digit_def)

lemma digits_of_body:
  "filter is_digit (unsigned_part (int_trim s)) = filter is_digit s"
  by (simp only: filter_unsigned_part filter_int_trim)

lemma digit_groups_Nil: "\<not> digit_groups []"
  by (simp add: digit_groups_def)

lemma py_int_numeric:
  "py_int lim s =
     (if numeric_string s \<and> (lim = 0 \<or> digit_count s \<le> lim) then Some (numeric_value s)
      else None)"
proof (cases "int_trim s")
  case Nil
  then show ?thesis
    by (simp add: py_int_def int_trim_def [symmetric] numeric_string_def unsigned_part_def
          digit_groups_Nil)
next
  case (Cons c cs)
  let ?body = "if c = CHR ''-'' \<or> c = CHR ''+'' then cs else c # cs"
  have body: "unsigned_part (int_trim s) = ?body" by (simp add: Cons unsigned_part_def)
  have cnt: "length (filter is_digit ?body) = digit_count s"
    using digits_of_body [of s] by (simp only: body digit_count_def)
  have val: "decimal_value (filter is_digit ?body) = decimal_value (filter is_digit s)"
    using digits_of_body [of s] by (simp only: body)
  have neg: "take 1 (int_trim s) = ''-'' \<longleftrightarrow> c = CHR ''-''" by (simp add: Cons)
  have "py_int lim s =
          (if 0 < lim \<and> lim < digit_count s then None
           else map_option (\<lambda>n. if c = CHR ''-'' then - int n else int n)
                  (scan_digits 0 False ?body))"
    by (simp only: py_int_def int_trim_def [symmetric] Cons list.case Let_def cnt)
  also have "\<dots> = (if numeric_string s \<and> (lim = 0 \<or> digit_count s \<le> lim)
                     then Some (numeric_value s) else None)"
    unfolding scan_digits_start numeric_string_def body numeric_value_def Let_def neg val
    by auto
  finally show ?thesis .
qed

lemma all_digits_numeric:
  assumes "ds \<noteq> []" and "\<forall>c\<in>set ds. is_digit c"
  shows "numeric_string ds" and "digit_count ds = length ds"
    and "numeric_value ds = int (decimal_value ds)"
proof -
  from assms(2) have f: "filter is_digit ds = ds" by simp
  have "py_int 0 ds = Some (int (decimal_value ds))"
    using assms by (intro py_int_digits) auto
  then have "numeric_string ds \<and> numeric_value ds = int (decimal_value ds)"
    unfolding py_int_numeric by (auto split: if_splits)
  then show "numeric_string ds" and "numeric_value ds = int (decimal_value ds)" by simp_all
  show "digit_count ds = length ds" by (simp add: digit_count_def f)
qed

lemma long_digit_string_facts:
  "long_digit_string \<noteq> []" "\<forall>c\<in>set long_digit_string. is_digit c"
  "length long_digit_string = 4301"
  by (simp_all add: long_digit_string_def is_digit_def)

text \<open>
  C6, as the specification states it for every numeric string, fails where the
  interpreter caps the digits of a conversion: with the default cap of 4300 a string of
  4301 digits is numeric, yet \<open>int\<close> raises and the parser returns the default with a
  warning.
\<close>

theorem get_env_int_cap_counterexample:
  "numeric_string long_digit_string
   \<and> get_env_int 4300 [''DEFAULT_TIMEOUT'' \<mapsto> long_digit_string] ''DEFAULT_TIMEOUT'' 15000
       = (15000, [InvalidInteger ''DEFAULT_TIMEOUT'' long_digit_string 15000])"
proof -
  note n = all_digits_numeric [OF long_digit_string_facts(1,2)]
  have "digit_count long_digit_string = 4301" using n(2) long_digit_string_facts(3) by simp
  then have "py_int 4300 long_digit_string = None" unfolding py_int_numeric by simp
  then show ?thesis using n(1) by (simp add: get_env_int_def)
qed

text \<open>
  C6, amended. When the integer setting has a value: a value that is not a numeric string
  gives the caller's default together with one warning; a numeric string whose number of
  digits is within the interpreter's cap (any number where the cap is 0, that is, off)
  gives exactly its integer value, without a warning; a numeric string with more digits
  than the cap gives the default and the warning. Every non-empty string of decimal
  digits is numeric, counts all its characters as digits, and has its decimal value.
\<close>

theorem get_env_int_numeric:
  assumes "environ name = Some raw"
  shows "(\<not> numeric_string raw \<longrightarrow>
            get_env_int lim environ name d = (d, [InvalidInteger name raw d]))
       \<and> (numeric_string raw \<and> (lim = 0 \<or> digit_count raw \<le> lim) \<longrightarrow>
            get_env_int lim environ name d = (numeric_value raw, []))
       \<and> (numeric_string raw \<and> 0 < lim \<and> lim < digit_count raw \<longrightarrow>
            get_env_int lim environ name d = (d, [InvalidInteger name raw d]))
       \<and> (raw \<noteq> [] \<and> (\<forall>c\<in>set raw. is_digit c) \<longrightarrow>
            numeric_string raw \<and> digit_count raw = length raw
            \<and> numeric_value raw = int (decimal_value raw))"
  using assms all_digits_numeric [of raw]
  by (auto simp: get_env_int_def py_int_numeric)

theorem get_env_int_numeric_witness:
  "get_env_int 4300 [''DEFAULT_TIMEOUT'' \<mapsto> ''30000''] ''DEFAULT_TIMEOUT'' 15000 = (30000, [])
   \<and> get_env_int 4300 [''DEFAULT_TIMEOUT'' \<mapsto> '' -1_000 ''] ''DEFAULT_TIMEOUT'' 15000
       = (-1000, [])
   \<and> get_env_int 4300 [''DEFAULT_TIMEOUT'' \<mapsto> ''12.5''] ''DEFAULT_TIMEOUT'' 15000
       = (15000, [InvalidInteger ''DEFAULT_TIMEOUT'' ''12.5'' 15000])
   \<and> get_env_int 4300 [''DEFAULT_TIMEOUT'' \<mapsto> long_digit_string] ''DEFAULT_TIMEOUT'' 15000
       = (15000, [InvalidInteger ''DEFAULT_TIMEOUT'' long_digit_string 15000])
   \<and> get_env_int 0 [''DEFAULT_TIMEOUT'' \<mapsto> long_digit_string] ''DEFAULT_TIMEOUT'' 15000
       = (int (decimal_value long_digit_string), [])"
proof -
  have e1: "[''DEFAULT_TIMEOUT'' \<mapsto> ''30000''] ''DEFAULT_TIMEOUT'' = Some ''30000''" by simp
  have e2: "[''DEFAULT_TIMEOUT'' \<mapsto> '' -1_000 ''] ''DEFAULT_TIMEOUT'' = Some '' -1_000 ''"
    by simp
  have e3: "[''DEFAULT_TIMEOUT'' \<mapsto> ''12.5''] ''DEFAULT_TIMEOUT'' = Some ''12.5''" by simp
  have e4: "[''DEFAULT_TIMEOUT'' \<mapsto> long_digit_string] ''DEFAULT_TIMEOUT''
              = Some long_digit_string"
    by simp
  have d1: "''30000'' \<noteq> [] \<and> (\<forall>c\<in>set ''30000''. is_digit c)"
    by (simp add: is_digit_def)
  have l1: "(4300::nat) = 0 \<or> length ''30000'' \<le> 4300" by simp
  have v1: "int (decimal_value ''30000'') = 30000"
    by (simp add: decimal_value_def digit_val_def)
  have n2: "numeric_string '' -1_000 ''"
    by (simp add: numeric_string_def int_trim_def unsigned_part_def digit_groups_def
          int_space_def is_digit_def)
  have c2: "(4300::nat) = 0 \<or> digit_count '' -1_000 '' \<le> 4300"
    by (simp add: digit_count_def is_digit_def)
  have v2: "numeric_value '' -1_000 '' = -1000"
    by (simp add: numeric_value_def int_trim_def int_space_def is_digit_def decimal_value_def
          digit_val_def)
  have n3: "\<not> numeric_string ''12.5''"
    by (simp add: numeric_string_def int_trim_def unsigned_part_def digit_groups_def
          int_space_def is_digit_def)
  have d4: "long_digit_string \<noteq> [] \<and> (\<forall>c\<in>set long_digit_string. is_digit c)"
    using long_digit_string_facts(1,2) by simp
  have l4: "length long_digit_string = 4301" by (rule long_digit_string_facts(3))
  note t1 = get_env_int_numeric
         [where environ = "[''DEFAULT_TIMEOUT'' \<mapsto> ''30000'']" and d = 15000 and lim = 4300]
  from t1 e1 d1 l1 v1
  have r1: "get_env_int 4300 [''DEFAULT_TIMEOUT'' \<mapsto> ''30000''] ''DEFAULT_TIMEOUT'' 15000
              = (30000, [])"
    by simp
  from get_env_int_numeric
         [where environ = "[''DEFAULT_TIMEOUT'' \<mapsto> '' -1_000 '']" and d = 15000 and lim = 4300]
       e2 n2 c2 v2
  have r2: "get_env_int 4300 [''DEFAULT_TIMEOUT'' \<mapsto> '' -1_000 ''] ''DEFAULT_TIMEOUT'' 15000
              = (-1000, [])"
    by simp
  from get_env_int_numeric
         [where environ = "[''DEFAULT_TIMEOUT'' \<mapsto> ''12.5'']" and d = 15000 and lim = 4300]
       e3 n3
  have r3: "get_env_int 4300 [''DEFAULT_TIMEOUT'' \<mapsto> ''12.5''] ''DEFAULT_TIMEOUT'' 15000
              = (15000, [InvalidInteger ''DEFAULT_TIMEOUT'' ''12.5'' 15000])"
    by blast
  note t4 = get_env_int_numeric
         [where environ = "[''DEFAULT_TIMEOUT'' \<mapsto> long_digit_string]" and d = 15000
            and lim = 4300]
  from t4 e4 d4 have f4: "numeric_string long_digit_string
      \<and> digit_count long_digit_string = length long_digit_string
      \<and> numeric_value long_digit_string = int (decimal_value long_digit_string)"
    by blast
  with l4 have o4: "numeric_string long_digit_string \<and> (0::nat) < 4300
                     \<and> 4300 < digit_count long_digit_string"
    by simp
  from t4 e4 o4
  have r4: "get_env_int 4300 [''DEFAULT_TIMEOUT'' \<mapsto> long_digit_string] ''DEFAULT_TIMEOUT''
              15000 = (15000, [InvalidInteger ''DEFAULT_TIMEOUT'' long_digit_string 15000])"
    by blast
  note t5 = get_env_int_numeric
         [where environ = "[''DEFAULT_TIMEOUT'' \<mapsto> long_digit_string]" and d = 15000
            and lim = 0]
  from t5 e4 f4
  have r5: "get_env_int 0 [''DEFAULT_TIMEOUT'' \<mapsto> long_digit_string] ''DEFAULT_TIMEOUT''
              15000 = (int (decimal_value long_digit_string), [])"
    by simp
  from r1 r2 r3 r4 r5 show ?thesis by blast
qed

section \<open>The environment file\<close>

lemma load_first_hit:
  "(\<forall>q\<in>set pre. \<not> exists q) \<Longrightarrow> exists p \<Longrightarrow>
     load_first ld exists (pre @ p # post) environ = ld (Some p) True environ"
  by (induction pre) auto

lemma load_first_miss:
  "(\<forall>q\<in>set ps. \<not> exists q) \<Longrightarrow> load_first ld exists ps environ = ld None False environ"
  by (induction ps) auto

lemma candidate_paths_named:
  "name \<noteq> [] \<Longrightarrow>
     candidate_paths (Some name) =
       [PathDiv (Path ''env'') (name @ ''.env''), Path (name @ ''.env''),
        PathDiv (Path ''env'') ''test.env'', Path ''test.env'', Path ''.env'']"
  by (simp add: candidate_paths_def)

lemma candidate_paths_unnamed:
  "test_env = None \<or> test_env = Some [] \<Longrightarrow>
     candidate_paths test_env =
       [PathDiv (Path ''env'') ''test.env'', Path ''test.env'', Path ''.env'']"
  by (auto simp: candidate_paths_def)

text \<open>
  C2. The candidates are checked in a fixed order: with a non-empty environment name first
  \<open>env/NAME.env\<close> and \<open>NAME.env\<close>, then always \<open>env/test.env\<close>, \<open>test.env\<close>
  and \<open>.env\<close> (an unset or empty name gives only these three). The first candidate
  that exists is the one and only file loaded, with \<open>override=True\<close>; when none
  exists the library's default search runs instead. With the name \<open>staging\<close>, both
  staging files absent and \<open>env/test.env\<close> present, \<open>env/test.env\<close> is loaded.
\<close>

theorem load_environment_first_existing:
  "(\<forall>name. name \<noteq> [] \<longrightarrow>
       candidate_paths (Some name) =
         [PathDiv (Path ''env'') (name @ ''.env''), Path (name @ ''.env''),
          PathDiv (Path ''env'') ''test.env'', Path ''test.env'', Path ''.env''])
   \<and> candidate_paths None = [PathDiv (Path ''env'') ''test.env'', Path ''test.env'', Path ''.env'']
   \<and> candidate_paths (Some []) = [PathDiv (Path ''env'') ''test.env'', Path ''test.env'', Path ''.env'']
   \<and> (\<forall>pre p post.
         candidate_paths (environ ''TEST_ENV'') = pre @ p # post \<and> (\<forall>q\<in>set pre. \<not> exists q)
           \<and> exists p \<longrightarrow>
         load_environment ld exists environ = ld (Some p) True environ)
   \<and> ((\<forall>q\<in>set (candidate_paths (environ ''TEST_ENV'')). \<not> exists q) \<longrightarrow>
         load_environment ld exists environ = ld None False environ)
   \<and> (environ ''TEST_ENV'' = Some ''staging''
         \<and> \<not> exists (PathDiv (Path ''env'') ''staging.env'') \<and> \<not> exists (Path ''staging.env'')
         \<and> exists (PathDiv (Path ''env'') ''test.env'') \<longrightarrow>
         load_environment ld exists environ
           = ld (Some (PathDiv (Path ''env'') ''test.env'')) True environ)"
proof (intro conjI allI impI)
  fix name :: string
  assume "name \<noteq> []"
  then show "candidate_paths (Some name) =
       [PathDiv (Path ''env'') (name @ ''.env''), Path (name @ ''.env''),
        PathDiv (Path ''env'') ''test.env'', Path ''test.env'', Path ''.env'']"
    by (rule candidate_paths_named)
next
  show "candidate_paths None = [PathDiv (Path ''env'') ''test.env'', Path ''test.env'', Path ''.env'']"
    by (simp add: candidate_paths_unnamed)
next
  show "candidate_paths (Some []) = [PathDiv (Path ''env'') ''test.env'', Path ''test.env'', Path ''.env'']"
    by (simp add: candidate_paths_unnamed)
next
  fix pre p post
  assume "candidate_paths (environ ''TEST_ENV'') = pre @ p # post \<and> (\<forall>q\<in>set pre. \<not> exists q)
           \<and> exists p"
  then show "load_environment ld exists environ = ld (Some p) True environ"
    by (simp add: load_environment_def load_first_hit)
next
  assume "\<forall>q\<in>set (candidate_paths (environ ''TEST_ENV'')). \<not> exists q"
  then show "load_environment ld exists environ = ld None False environ"
    by (simp add: load_environment_def load_first_miss)
next
  assume a: "environ ''TEST_ENV'' = Some ''staging''
         \<and> \<not> exists (PathDiv (Path ''env'') ''staging.env'') \<and> \<not> exists (Path ''staging.env'')
         \<and> exists (PathDiv (Path ''env'') ''test.env'')"
  then have "candidate_paths (environ ''TEST_ENV'') =
       [PathDiv (Path ''env'') ''staging.env'', Path ''staging.env'',
        PathDiv (Path ''env'') ''test.env'', Path ''test.env'', Path ''.env'']"
    by (simp add: candidate_paths_named)
  with a show "load_environment ld exists environ
           = ld (Some (PathDiv (Path ''env'') ''test.env'')) True environ"
    by (simp add: load_environment_def)
qed

theorem load_environment_first_existing_witness:
  "candidate_paths (staging_environ ''TEST_ENV'')
     = [PathDiv (Path ''env'') ''staging.env'', Path ''staging.env'',
        PathDiv (Path ''env'') ''test.env'', Path ''test.env'', Path ''.env'']
   \<and> load_environment (simple_dotenv staging_contents) staging_exists staging_environ
       = simple_dotenv staging_contents (Some (PathDiv (Path ''env'') ''test.env'')) True
           staging_environ
   \<and> load_environment (simple_dotenv staging_contents) staging_exists staging_environ ''BASE_URL''
       = Some ''https://test.kiwi.com/''
   \<and> load_environment (simple_dotenv staging_contents) no_files staging_environ
       = staging_environ"
proof -
  note t = load_environment_first_existing
             [where environ = staging_environ and exists = staging_exists
                and ld = "simple_dotenv staging_contents"]
  note u = load_environment_first_existing
             [where environ = staging_environ and exists = no_files
                and ld = "simple_dotenv staging_contents"]
  have e: "staging_environ ''TEST_ENV'' = Some ''staging''" by (simp add: staging_environ_def)
  have n: "''staging'' \<noteq> []" by simp
  from t n e have c: "candidate_paths (staging_environ ''TEST_ENV'')
     = [PathDiv (Path ''env'') ''staging.env'', Path ''staging.env'',
        PathDiv (Path ''env'') ''test.env'', Path ''test.env'', Path ''.env'']"
    by simp
  have split: "candidate_paths (staging_environ ''TEST_ENV'')
     = [PathDiv (Path ''env'') ''staging.env'', Path ''staging.env'']
         @ PathDiv (Path ''env'') ''test.env'' # [Path ''test.env'', Path ''.env'']
       \<and> (\<forall>q\<in>set [PathDiv (Path ''env'') ''staging.env'', Path ''staging.env''].
             \<not> staging_exists q)
       \<and> staging_exists (PathDiv (Path ''env'') ''test.env'')"
    using c by (simp add: staging_exists_def)
  from t split
  have l: "load_environment (simple_dotenv staging_contents) staging_exists staging_environ
          = simple_dotenv staging_contents (Some (PathDiv (Path ''env'') ''test.env'')) True
              staging_environ"
    by blast
  have h: "staging_environ ''TEST_ENV'' = Some ''staging''
         \<and> \<not> staging_exists (PathDiv (Path ''env'') ''staging.env'')
         \<and> \<not> staging_exists (Path ''staging.env'')
         \<and> staging_exists (PathDiv (Path ''env'') ''test.env'')"
    by (simp add: staging_environ_def staging_exists_def)
  from t h
  have "load_environment (simple_dotenv staging_contents) staging_exists staging_environ
          = simple_dotenv staging_contents (Some (PathDiv (Path ''env'') ''test.env'')) True
              staging_environ"
    by blast
  then have b: "load_environment (simple_dotenv staging_contents) staging_exists staging_environ
                  ''BASE_URL'' = Some ''https://test.kiwi.com/''"
    by (simp add: simple_dotenv_def staging_contents_def staging_environ_def)
  have "\<forall>q\<in>set (candidate_paths (staging_environ ''TEST_ENV'')). \<not> no_files q"
    by (simp add: no_files_def)
  with u have "load_environment (simple_dotenv staging_contents) no_files staging_environ
                 = simple_dotenv staging_contents None False staging_environ"
    by blast
  then have m: "load_environment (simple_dotenv staging_contents) no_files staging_environ
                 = staging_environ"
    by (simp add: simple_dotenv_def)
  from c l b m show ?thesis by blast
qed

section \<open>The calendar\<close>

lemma month_day_table: "\<forall>n\<in>set [0..364]. month_day_ok n True \<and> month_day_ok n False"
  by code_simp

lemma month_day_correct: "0 \<le> n \<Longrightarrow> n < 365 \<Longrightarrow> month_day_ok n leapyear"
  using month_day_table by (cases leapyear) auto


lemma ord2ymd_unfold:
  fixes n0 :: int
  defines "q \<equiv> (n0 - 1) div 146097" and "r1 \<equiv> (n0 - 1) mod 146097"
  defines "a \<equiv> r1 div 36524" and "r2 \<equiv> r1 mod 36524"
  defines "b \<equiv> r2 div 1461" and "r3 \<equiv> r2 mod 1461"
  defines "c \<equiv> r3 div 365" and "r4 \<equiv> r3 mod 365"
  shows "ord2ymd n0 =
     (if c = 4 \<or> a = 4 then (q * 400 + 1 + a * 100 + b * 4 + c - 1, 12, 31)
      else (case month_day r4 (c = 3 \<and> (b \<noteq> 24 \<or> a = 3)) of
              (m, d) \<Rightarrow> (q * 400 + 1 + a * 100 + b * 4 + c, m, d)))"
  unfolding ord2ymd_def month_day_def Let_def q_def r1_def a_def r2_def b_def r3_def c_def r4_def
  by (auto simp only: prod.case split: if_splits)

lemma days_before_year_decomp:
  assumes "0 \<le> a" "a \<le> 3" "0 \<le> b" "b \<le> 24" "0 \<le> c" "c \<le> 3"
  shows "days_before_year (q * 400 + 1 + a * 100 + b * 4 + c)
           = 146097 * q + 36524 * a + 1461 * b + 365 * c"
proof -
  let ?y1 = "q * 400 + a * 100 + b * 4 + c"
  have d4: "?y1 div 4 = 100 * q + 25 * a + b" using assms by arith
  have d100: "?y1 div 100 = 4 * q + a" using assms by arith
  have d400: "?y1 div 400 = q" using assms by arith
  show ?thesis
    using d4 d100 d400 by (simp add: days_before_year_def Let_def algebra_simps)
qed

lemma mod_zero_in_range: "1 \<le> t \<Longrightarrow> t \<le> k \<Longrightarrow> (t::int) mod k = 0 \<longleftrightarrow> t = k"
proof
  assume "1 \<le> t" "t \<le> k" "t mod k = 0"
  show "t = k"
  proof (rule ccontr)
    assume "t \<noteq> k"
    with \<open>t \<le> k\<close> \<open>1 \<le> t\<close> have "t mod k = t" by simp
    with \<open>t mod k = 0\<close> \<open>1 \<le> t\<close> show False by simp
  qed
qed simp

lemma is_leap_decomp:
  assumes "0 \<le> a" "a \<le> 3" "0 \<le> b" "b \<le> 24" "0 \<le> c" "c \<le> 3"
  shows "is_leap (q * 400 + 1 + a * 100 + b * 4 + c) \<longleftrightarrow> c = 3 \<and> (b \<noteq> 24 \<or> a = 3)"
proof -
  let ?y = "q * 400 + 1 + a * 100 + b * 4 + c"
  have e4: "?y = (c + 1) + 4 * (100 * q + 25 * a + b)" by simp
  have e100: "?y = (4 * b + c + 1) + 100 * (4 * q + a)" by simp
  have e400: "?y = (100 * a + 4 * b + c + 1) + 400 * q" by simp
  have "?y mod 4 = (c + 1) mod 4" by (subst e4) (rule mod_mult_self2)
  also have "\<dots> = 0 \<longleftrightarrow> c + 1 = 4" using assms by (intro mod_zero_in_range) auto
  finally have m4a: "?y mod 4 = 0 \<longleftrightarrow> c + 1 = 4" .
  have "?y mod 100 = (4 * b + c + 1) mod 100" by (subst e100) (rule mod_mult_self2)
  also have "\<dots> = 0 \<longleftrightarrow> 4 * b + c + 1 = 100" using assms by (intro mod_zero_in_range) auto
  finally have m100a: "?y mod 100 = 0 \<longleftrightarrow> 4 * b + c + 1 = 100" .
  have "?y mod 400 = (100 * a + 4 * b + c + 1) mod 400" by (subst e400) (rule mod_mult_self2)
  also have "\<dots> = 0 \<longleftrightarrow> 100 * a + 4 * b + c + 1 = 400"
    using assms by (intro mod_zero_in_range) auto
  finally have m400a: "?y mod 400 = 0 \<longleftrightarrow> 100 * a + 4 * b + c + 1 = 400" .
  have l4: "c + 1 = 4 \<longleftrightarrow> c = 3" by arith
  have l100: "4 * b + c + 1 = 100 \<longleftrightarrow> b = 24 \<and> c = 3" using assms by arith
  have l400: "100 * a + 4 * b + c + 1 = 400 \<longleftrightarrow> a = 3 \<and> b = 24 \<and> c = 3" using assms by arith
  show ?thesis unfolding is_leap_def m4a m100a m400a l4 l100 l400 by blast
qed

lemma days_before_month_12: "DAYS_BEFORE_MONTH ! 12 = 334"
  by code_simp

lemma days_in_month_12: "DAYS_IN_MONTH ! 12 = 31"
  by code_simp

lemma ord2ymd_correct:
  assumes "1 \<le> n0"
  shows "case ord2ymd n0 of (y, m, d) \<Rightarrow>
           1 \<le> y \<and> 1 \<le> m \<and> m \<le> 12 \<and> 1 \<le> d \<and> d \<le> days_in_month y m
           \<and> ymd2ord y m d = n0 \<and> (n0 \<le> 3652059 \<longrightarrow> y \<le> 9999)"
proof -
  define q where "q = (n0 - 1) div 146097"
  define r1 where "r1 = (n0 - 1) mod 146097"
  define a where "a = r1 div 36524"
  define r2 where "r2 = r1 mod 36524"
  define b where "b = r2 div 1461"
  define r3 where "r3 = r2 mod 1461"
  define c where "c = r3 div 365"
  define r4 where "r4 = r3 mod 365"
  have n0: "n0 - 1 = 146097 * q + r1" and r1: "0 \<le> r1" "r1 < 146097"
    by (simp_all add: q_def r1_def)
  have r1e: "r1 = 36524 * a + r2" and r2: "0 \<le> r2" "r2 < 36524"
    by (simp_all add: a_def r2_def)
  have r2e: "r2 = 1461 * b + r3" and r3: "0 \<le> r3" "r3 < 1461"
    by (simp_all add: b_def r3_def)
  have r3e: "r3 = 365 * c + r4" and r4: "0 \<le> r4" "r4 < 365"
    by (simp_all add: c_def r4_def)
  have q0: "0 \<le> q" using assms by (simp add: q_def pos_imp_zdiv_nonneg_iff)
  have a0: "0 \<le> a" using r1 by (simp add: a_def pos_imp_zdiv_nonneg_iff)
  have b0: "0 \<le> b" using r2 by (simp add: b_def pos_imp_zdiv_nonneg_iff)
  have c0: "0 \<le> c" using r3 by (simp add: c_def pos_imp_zdiv_nonneg_iff)
  have a4: "a \<le> 4" using r1e r1 r2 by arith
  have b24: "b \<le> 24" using r2e r2 r3 by arith
  have c4: "c \<le> 4" using r3e r3 r4 by arith
  have unf: "ord2ymd n0 =
     (if c = 4 \<or> a = 4 then (q * 400 + 1 + a * 100 + b * 4 + c - 1, 12, 31)
      else (case month_day r4 (c = 3 \<and> (b \<noteq> 24 \<or> a = 3)) of
              (m, d) \<Rightarrow> (q * 400 + 1 + a * 100 + b * 4 + c, m, d)))"
    unfolding q_def r1_def a_def r2_def b_def r3_def c_def r4_def by (rule ord2ymd_unfold)
  show ?thesis
  proof (cases "a = 4")
    case True
    with r1e r1 r2 have "r2 = 0" by arith
    then have z: "b = 0" "r3 = 0" "c = 0" "r4 = 0"
      by (simp_all add: b_def r3_def c_def r4_def)
    have ord: "ord2ymd n0 = (q * 400 + 1 + 3 * 100 + 24 * 4 + 3, 12, 31)"
      using unf True z by simp
    have dby: "days_before_year (q * 400 + 1 + 3 * 100 + 24 * 4 + 3)
                 = 146097 * q + 36524 * 3 + 1461 * 24 + 365 * 3"
      by (rule days_before_year_decomp) simp_all
    have leap: "is_leap (q * 400 + 1 + 3 * 100 + 24 * 4 + 3)"
      by (subst is_leap_decomp) simp_all
    have n0v: "n0 = 146097 * q + 146097" using n0 r1e True \<open>r2 = 0\<close> by arith
    have ymd: "ymd2ord (q * 400 + 1 + 3 * 100 + 24 * 4 + 3) 12 31 = n0"
      unfolding ymd2ord_def days_before_month_def dby n0v using leap
      by (simp add: days_before_month_12)
    have dim: "(31::int) \<le> days_in_month (q * 400 + 1 + 3 * 100 + 24 * 4 + 3) 12"
      by (simp add: days_in_month_def days_in_month_12)
    have yr: "n0 \<le> 3652059 \<longrightarrow> q * 400 + 1 + 3 * 100 + 24 * 4 + 3 \<le> 9999"
      using n0v q0 by arith
    show ?thesis unfolding ord using ymd dim yr q0 by simp
  next
    case False
    with a4 have a3: "a \<le> 3" by simp
    show ?thesis
    proof (cases "c = 4")
      case True
      with r3e r3 r4 have "r4 = 0" by arith
      have b23: "b \<le> 23" using r2e r2 r3e True \<open>r4 = 0\<close> by arith
      have ord: "ord2ymd n0 = (q * 400 + 1 + a * 100 + b * 4 + 3, 12, 31)"
        using unf True by simp
      have dby: "days_before_year (q * 400 + 1 + a * 100 + b * 4 + 3)
                 = 146097 * q + 36524 * a + 1461 * b + 365 * 3"
        using a0 a3 b0 b23 by (intro days_before_year_decomp) simp_all
      have leap: "is_leap (q * 400 + 1 + a * 100 + b * 4 + 3)"
        using a0 a3 b0 b23 by (subst is_leap_decomp) simp_all
      have n0v: "n0 = 146097 * q + 36524 * a + 1461 * b + 1461"
        using n0 r1e r2e r3e True \<open>r4 = 0\<close> by arith
      have ymd: "ymd2ord (q * 400 + 1 + a * 100 + b * 4 + 3) 12 31 = n0"
        unfolding ymd2ord_def days_before_month_def dby n0v using leap
        by (simp add: days_before_month_12)
      have dim: "(31::int) \<le> days_in_month (q * 400 + 1 + a * 100 + b * 4 + 3) 12"
        by (simp add: days_in_month_def days_in_month_12)
      have q24: "n0 \<le> 3652059 \<longrightarrow> q \<le> 24" using n0v q0 a0 b0 by arith
      have yr: "n0 \<le> 3652059 \<longrightarrow> q * 400 + 1 + a * 100 + b * 4 + 3 \<le> 9999"
        using q24 a3 b23 by arith
      have y1: "1 \<le> q * 400 + 1 + a * 100 + b * 4 + 3" using q0 a0 b0 by arith
      show ?thesis unfolding ord using ymd dim yr y1 by simp
    next
      case False
      with c4 have c3: "c \<le> 3" by simp
      let ?y = "q * 400 + 1 + a * 100 + b * 4 + c"
      let ?leap = "c = 3 \<and> (b \<noteq> 24 \<or> a = 3)"
      obtain m d where md: "month_day r4 ?leap = (m, d)" by (cases "month_day r4 ?leap")
      have ord: "ord2ymd n0 = (?y, m, d)"
        using unf \<open>a \<noteq> 4\<close> \<open>c \<noteq> 4\<close> md by simp
      have dby: "days_before_year ?y = 146097 * q + 36524 * a + 1461 * b + 365 * c"
        using a0 a3 b0 b24 c0 c3 by (intro days_before_year_decomp)
      have leap: "is_leap ?y \<longleftrightarrow> ?leap"
        using a0 a3 b0 b24 c0 c3 by (intro is_leap_decomp)
      from month_day_correct [OF r4, of ?leap] md
      have ok: "1 \<le> m" "m \<le> 12" "1 \<le> d"
        "d \<le> (if m = 2 \<and> ?leap then 29 else DAYS_IN_MONTH ! nat m)"
        "DAYS_BEFORE_MONTH ! nat m + (if m > 2 \<and> ?leap then 1 else 0) + d = r4 + 1"
        by (simp_all add: month_day_ok_def)
      have n0v: "n0 = 146097 * q + 36524 * a + 1461 * b + 365 * c + r4 + 1"
        using n0 r1e r2e r3e by arith
      have ymd: "ymd2ord ?y m d = n0"
        unfolding ymd2ord_def days_before_month_def dby n0v leap using ok(5) by simp
      have dim: "d \<le> days_in_month ?y m"
        unfolding days_in_month_def leap using ok(4) by simp
      have q24: "n0 \<le> 3652059 \<longrightarrow> q \<le> 24" using n0v q0 a0 b0 c0 r4 by arith
      have lex: "q = 24 \<longrightarrow> n0 \<le> 3652059 \<longrightarrow> a * 100 + b * 4 + c \<le> 398"
      proof (intro impI)
        assume q: "q = 24" and le: "n0 \<le> 3652059"
        from n0v q le r4 have s: "36524 * a + 1461 * b + 365 * c \<le> 145730" by arith
        show "a * 100 + b * 4 + c \<le> 398"
        proof (cases "a = 3")
          case True
          with s have s2: "1461 * b + 365 * c \<le> 36158" by arith
          show ?thesis
          proof (cases "b = 24")
            case True
            with s2 have "c \<le> 2" by arith
            with \<open>a = 3\<close> \<open>b = 24\<close> show ?thesis by arith
          next
            case False
            with b24 have "b \<le> 23" by arith
            with \<open>a = 3\<close> c3 show ?thesis by arith
          qed
        next
          case False
          with a3 have "a \<le> 2" by arith
          with b24 c3 show ?thesis by arith
        qed
      qed
      have yr: "n0 \<le> 3652059 \<longrightarrow> ?y \<le> 9999"
      proof (intro impI)
        assume le: "n0 \<le> 3652059"
        show "?y \<le> 9999"
        proof (cases "q = 24")
          case True
          with lex le show ?thesis by arith
        next
          case False
          with q24 le have "q \<le> 23" by arith
          with a3 b24 c3 show ?thesis by arith
        qed
      qed
      have y1: "1 \<le> ?y" using q0 a0 b0 c0 by arith
      show ?thesis unfolding ord using ymd dim yr y1 ok(1,2,3) by simp
    qed
  qed
qed



declare str_nat.simps [simp del]

lemma digit_char_0: "digit_char 0 = CHR ''0''"
  by code_simp

lemma str_nat_1: "n < 10 \<Longrightarrow> str_nat n = [digit_char n]"
  by (subst str_nat.simps) simp

lemma str_nat_2: "10 \<le> n \<Longrightarrow> n < 100 \<Longrightarrow> str_nat n = [digit_char (n div 10), digit_char (n mod 10)]"
  by (subst str_nat.simps) (simp add: str_nat_1)

lemma str_nat_3:
  "100 \<le> n \<Longrightarrow> n < 1000 \<Longrightarrow>
     str_nat n = [digit_char (n div 100), digit_char (n div 10 mod 10), digit_char (n mod 10)]"
proof -
  assume h: "100 \<le> n" "n < 1000"
  have d: "n div 10 div 10 = n div 100" by arith
  from h have "10 \<le> n div 10" "n div 10 < 100" by arith+
  then have "str_nat (n div 10) = [digit_char (n div 10 div 10), digit_char (n div 10 mod 10)]"
    by (rule str_nat_2)
  with h d show ?thesis by (subst str_nat.simps) simp
qed

lemma str_nat_4:
  "1000 \<le> n \<Longrightarrow> n < 10000 \<Longrightarrow>
     str_nat n = [digit_char (n div 1000), digit_char (n div 100 mod 10),
                  digit_char (n div 10 mod 10), digit_char (n mod 10)]"
proof -
  assume h: "1000 \<le> n" "n < 10000"
  have d: "n div 10 div 100 = n div 1000" "n div 10 div 10 = n div 100" by arith+
  from h have "100 \<le> n div 10" "n div 10 < 1000" by arith+
  then have "str_nat (n div 10) = [digit_char (n div 10 div 100),
               digit_char (n div 10 div 10 mod 10), digit_char (n div 10 mod 10)]"
    by (rule str_nat_3)
  with h d show ?thesis by (subst str_nat.simps) simp
qed

lemma replicate_2: "replicate 2 x = [x, x]"
  by (simp add: numeral_2_eq_2)

lemma replicate_3: "replicate 3 x = [x, x, x]"
  by (simp add: numeral_3_eq_3)

lemma zfill_2:
  assumes "n < 100"
  shows "zfill 2 (str_nat n) = [digit_char (n div 10), digit_char (n mod 10)]"
proof (cases "n < 10")
  case True
  then show ?thesis by (simp add: zfill_def str_nat_1 digit_char_0)
next
  case False
  with assms show ?thesis by (simp add: zfill_def str_nat_2)
qed

lemma zfill_4:
  assumes "n < 10000"
  shows "zfill 4 (str_nat n) = [digit_char (n div 1000), digit_char (n div 100 mod 10),
                  digit_char (n div 10 mod 10), digit_char (n mod 10)]"
proof -
  consider "n < 10" | "10 \<le> n" "n < 100" | "100 \<le> n" "n < 1000" | "1000 \<le> n"
    by linarith
  then show ?thesis
  proof cases
    case 1
    then show ?thesis by (simp add: zfill_def str_nat_1 digit_char_0 replicate_3)
  next
    case 2
    then show ?thesis by (simp add: zfill_def str_nat_2 digit_char_0 replicate_2)
  next
    case 3
    then show ?thesis by (simp add: zfill_def str_nat_3 digit_char_0)
  next
    case 4
    with assms show ?thesis by (simp add: zfill_def str_nat_4)
  qed
qed



lemma days_in_month_le:
  assumes "1 \<le> m" "m \<le> 12"
  shows "days_in_month y m \<le> 31"
proof -
  have "\<forall>k\<in>set [1..12]. DAYS_IN_MONTH ! nat k \<le> 31" by code_simp
  with assms show ?thesis by (simp add: days_in_month_def)
qed

lemma days_before_month_nonneg:
  assumes "1 \<le> m" "m \<le> 12"
  shows "0 \<le> days_before_month y m"
proof -
  have "\<forall>k\<in>set [1..12]. 0 \<le> DAYS_BEFORE_MONTH ! nat k" by code_simp
  with assms have "0 \<le> DAYS_BEFORE_MONTH ! nat m" by simp
  then show ?thesis by (simp add: days_before_month_def)
qed

lemma days_before_year_nonneg: "1 \<le> y \<Longrightarrow> 0 \<le> days_before_year y"
proof -
  assume "1 \<le> y"
  then have "0 \<le> y - 1" by simp
  moreover have "(y - 1) div 100 \<le> (y - 1) div 4" using \<open>0 \<le> y - 1\<close> by arith
  moreover have "0 \<le> (y - 1) div 400" using \<open>0 \<le> y - 1\<close> by (simp add: pos_imp_zdiv_nonneg_iff)
  ultimately show ?thesis by (simp add: days_before_year_def Let_def)
qed

lemma toordinal_positive: "valid_date d \<Longrightarrow> 1 \<le> toordinal d"
  using days_before_year_nonneg [of "year d"] days_before_month_nonneg [of "month d" "year d"]
  by (simp add: valid_date_def toordinal_def ymd2ord_def)

lemma strftime_ymd_iso:
  assumes "valid_date d"
  shows "strftime_ymd d = iso_date d"
proof -
  from assms have y: "nat (year d) < 10000" and m: "nat (month d) < 100"
    by (auto simp: valid_date_def)
  from assms days_in_month_le [of "month d" "year d"] have dd: "nat (day d) < 100"
    by (auto simp: valid_date_def)
  show ?thesis
    by (simp add: strftime_ymd_def iso_date_def Let_def zfill_4 [OF y] zfill_2 [OF m] zfill_2 [OF dd])
qed

lemma fromordinal_valid:
  assumes "1 \<le> n" "n \<le> MAXORDINAL"
  shows "valid_date (fromordinal n) \<and> toordinal (fromordinal n) = n"
  using ord2ymd_correct [OF assms(1)] assms(2)
  by (auto simp: fromordinal_def valid_date_def toordinal_def MAXORDINAL_def split: prod.splits)


text \<open>The ordinal determines the date: no two valid dates share one.\<close>

lemma div_step:
  fixes t :: int
  assumes "0 < k"
  shows "(t + 1) div k = t div k + (if (t + 1) mod k = 0 then 1 else 0)"
proof -
  define q where "q = t div k"
  define r where "r = t mod k"
  have t: "t + 1 = k * q + (r + 1)" by (simp add: q_def r_def)
  have r: "0 \<le> r" "r < k" using assms by (simp_all add: r_def)
  from assms have k: "k \<noteq> 0" by simp
  have dv: "(t + 1) div k = q + (r + 1) div k" unfolding t using k by (rule div_mult_self4)
  have md: "(t + 1) mod k = (r + 1) mod k" unfolding t by (rule mod_mult_self4)
  show ?thesis
  proof (cases "r + 1 = k")
    case True
    with k show ?thesis unfolding dv md q_def [symmetric] by simp
  next
    case False
    with r have "r + 1 < k" "0 \<le> r + 1" by simp_all
    then have "(r + 1) div k = 0" "(r + 1) mod k = r + 1" by simp_all
    with r show ?thesis unfolding dv md q_def [symmetric] by simp
  qed
qed

lemma mod_400_100: "(y::int) mod 400 = 0 \<Longrightarrow> y mod 100 = 0"
proof -
  assume "y mod 400 = 0"
  then have "400 dvd y" by (simp add: mod_eq_0_iff_dvd)
  moreover have "(100::int) dvd 400" by simp
  ultimately have "100 dvd y" by (rule dvd_trans [rotated])
  then show ?thesis by (simp add: mod_eq_0_iff_dvd)
qed

lemma mod_100_4: "(y::int) mod 100 = 0 \<Longrightarrow> y mod 4 = 0"
proof -
  assume "y mod 100 = 0"
  then have "100 dvd y" by (simp add: mod_eq_0_iff_dvd)
  moreover have "(4::int) dvd 100" by simp
  ultimately have "4 dvd y" by (rule dvd_trans [rotated])
  then show ?thesis by (simp add: mod_eq_0_iff_dvd)
qed

lemma days_before_year_step:
  "days_before_year (y + 1) = days_before_year y + (if is_leap y then 366 else 365)"
proof -
  define A where "A = (y - 1) div 4"
  define B where "B = (y - 1) div 100"
  define C where "C = (y - 1) div 400"
  have s4: "y div 4 = A + (if y mod 4 = 0 then 1 else 0)"
    using div_step [of 4 "y - 1"] by (simp add: A_def)
  have s100: "y div 100 = B + (if y mod 100 = 0 then 1 else 0)"
    using div_step [of 100 "y - 1"] by (simp add: B_def)
  have s400: "y div 400 = C + (if y mod 400 = 0 then 1 else 0)"
    using div_step [of 400 "y - 1"] by (simp add: C_def)
  have old: "days_before_year y = (y - 1) * 365 + A - B + C"
    by (simp add: days_before_year_def Let_def A_def B_def C_def)
  have new: "days_before_year (y + 1) = y * 365 + y div 4 - y div 100 + y div 400"
    by (simp add: days_before_year_def Let_def)
  consider (a) "y mod 4 \<noteq> 0" | (b) "y mod 4 = 0" "y mod 100 \<noteq> 0"
    | (c) "y mod 100 = 0" "y mod 400 \<noteq> 0" | (d) "y mod 400 = 0"
    by argo
  then show ?thesis
  proof cases
    case a
    then have "y mod 100 \<noteq> 0" "y mod 400 \<noteq> 0" using mod_100_4 [of y] mod_400_100 [of y] by auto
    with a show ?thesis unfolding new old s4 s100 s400 is_leap_def by (simp add: algebra_simps)
  next
    case b
    then have "y mod 400 \<noteq> 0" using mod_400_100 [of y] by auto
    with b show ?thesis unfolding new old s4 s100 s400 is_leap_def by (simp add: algebra_simps)
  next
    case c
    then have "y mod 4 = 0" using mod_100_4 [of y] by auto
    with c show ?thesis unfolding new old s4 s100 s400 is_leap_def by (simp add: algebra_simps)
  next
    case d
    then have "y mod 100 = 0" "y mod 4 = 0" using mod_100_4 [of y] mod_400_100 [of y] by auto
    with d show ?thesis unfolding new old s4 s100 s400 is_leap_def by (simp add: algebra_simps)
  qed
qed

lemma days_before_year_mono_nat:
  "days_before_year y + 365 * int k \<le> days_before_year (y + int k)"
proof (induction k)
  case 0
  then show ?case by simp
next
  case (Suc k)
  have "y + int (Suc k) = (y + int k) + 1" by simp
  then have "days_before_year (y + int (Suc k)) = days_before_year ((y + int k) + 1)"
    by (rule arg_cong)
  also have "\<dots> \<ge> days_before_year (y + int k) + 365"
    unfolding days_before_year_step by simp
  finally show ?case using Suc.IH by simp
qed

lemma days_before_year_mono:
  assumes "y < y'"
  shows "days_before_year (y + 1) \<le> days_before_year y'"
proof -
  define k where "k = nat (y' - y - 1)"
  from assms have "y' = (y + 1) + int k" by (simp add: k_def)
  moreover have "days_before_year (y + 1) \<le> days_before_year (y + 1 + int k)"
    using days_before_year_mono_nat [of "y + 1" k] by simp
  ultimately show ?thesis by simp
qed

lemma year_length_table:
  "\<forall>m\<in>set [1..12]. \<forall>leap\<in>{True, False}.
     DAYS_BEFORE_MONTH ! nat m + (if m > 2 \<and> leap then 1 else 0)
       + (if m = 2 \<and> leap then 29 else DAYS_IN_MONTH ! nat m)
     \<le> (if leap then 366 else 365)"
  by code_simp

lemma next_month_table:
  "\<forall>m\<in>set [1..12]. \<forall>m'\<in>set [1..12]. \<forall>leap\<in>{True, False}.
     m < m' \<longrightarrow>
     DAYS_BEFORE_MONTH ! nat m + (if m > 2 \<and> leap then 1 else 0)
       + (if m = 2 \<and> leap then 29 else DAYS_IN_MONTH ! nat m)
     \<le> DAYS_BEFORE_MONTH ! nat m' + (if m' > 2 \<and> leap then 1 else 0)"
  by code_simp

lemma month_end_in_year:
  assumes "1 \<le> m" "m \<le> 12"
  shows "days_before_month y m + days_in_month y m \<le> (if is_leap y then 366 else 365)"
  using year_length_table [rule_format, of m "is_leap y"] assms
  by (simp add: days_before_month_def days_in_month_def)

lemma month_end_before_next:
  assumes "1 \<le> m" "m < m'" "m' \<le> 12"
  shows "days_before_month y m + days_in_month y m \<le> days_before_month y m'"
proof -
  from assms have "m \<in> set [1..12]" "m' \<in> set [1..12]" by simp_all
  with next_month_table [rule_format, of m m' "is_leap y"] assms(2) show ?thesis
    by (simp add: days_before_month_def days_in_month_def)
qed

lemma toordinal_in_year:
  assumes "valid_date d"
  shows "days_before_year (year d) < toordinal d"
    and "toordinal d \<le> days_before_year (year d + 1)"
proof -
  from assms have m: "1 \<le> month d" "month d \<le> 12"
    and dd: "1 \<le> day d" "day d \<le> days_in_month (year d) (month d)"
    by (simp_all add: valid_date_def)
  from days_before_month_nonneg [OF m, of "year d"] dd(1)
  show "days_before_year (year d) < toordinal d"
    by (simp add: toordinal_def ymd2ord_def)
  from month_end_in_year [OF m, of "year d"] dd(2)
  show "toordinal d \<le> days_before_year (year d + 1)"
    unfolding days_before_year_step by (simp add: toordinal_def ymd2ord_def split: if_splits)
qed

lemma toordinal_year_le:
  assumes "valid_date d" "valid_date d'" "toordinal d = toordinal d'"
  shows "year d \<le> year d'"
proof (rule ccontr)
  assume "\<not> year d \<le> year d'"
  then have "year d' < year d" by simp
  then have "days_before_year (year d' + 1) \<le> days_before_year (year d)"
    by (rule days_before_year_mono)
  with toordinal_in_year(2) [OF assms(2)] toordinal_in_year(1) [OF assms(1)] assms(3)
  show False by simp
qed

lemma toordinal_month_le:
  assumes "valid_date d" "valid_date d'" "toordinal d = toordinal d'" "year d = year d'"
  shows "month d \<le> month d'"
proof (rule ccontr)
  assume "\<not> month d \<le> month d'"
  then have lt: "month d' < month d" by simp
  from assms(1,2) have "1 \<le> month d'" "month d \<le> 12"
    and "day d' \<le> days_in_month (year d') (month d')" "1 \<le> day d"
    by (simp_all add: valid_date_def)
  with month_end_before_next [of "month d'" "month d" "year d'"] lt assms(3,4)
  show False by (simp add: toordinal_def ymd2ord_def)
qed

lemma toordinal_inj:
  assumes "valid_date d" "valid_date d'" "toordinal d = toordinal d'"
  shows "d = d'"
proof -
  have y: "year d = year d'"
    using toordinal_year_le [OF assms] toordinal_year_le [OF assms(2,1)] assms(3) by simp
  have m: "month d = month d'"
    using toordinal_month_le [OF assms y] toordinal_month_le [OF assms(2,1)] assms(3) y by simp
  from assms(3) y m have "day d = day d'" by (simp add: toordinal_def ymd2ord_def)
  with y m show ?thesis by simp
qed

lemma days_before_year_10000: "days_before_year 10000 = MAXORDINAL"
  by code_simp

lemma toordinal_le_max:
  assumes "valid_date d"
  shows "toordinal d \<le> MAXORDINAL"
proof -
  from assms have "year d < 10000" by (simp add: valid_date_def)
  then have "days_before_year (year d + 1) \<le> days_before_year 10000"
    by (rule days_before_year_mono)
  with toordinal_in_year(2) [OF assms] show ?thesis by (simp add: days_before_year_10000)
qed

lemma fromordinal_toordinal:
  assumes "valid_date d"
  shows "fromordinal (toordinal d) = d"
proof -
  from fromordinal_valid [OF toordinal_positive [OF assms] toordinal_le_max [OF assms]]
  have "valid_date (fromordinal (toordinal d))"
    and "toordinal (fromordinal (toordinal d)) = toordinal d"
    by simp_all
  then show ?thesis using assms by (intro toordinal_inj)
qed

section \<open>Airport codes\<close>

lemmas io_defs =
  bind_io_def return_io_def raise_io_def lift_io_def print_io_def perform_def try_except_def
  click_def fill_def goto_def wait_for_load_state_def is_visible_def is_checked_def

lemma dom_AIRPORT_MAPPINGS: "dom AIRPORT_MAPPINGS = {''RTM'', ''MAD''}"
  by (auto simp: AIRPORT_MAPPINGS_def split: if_splits)

lemma airport_name_mapped:
  "airport_code \<in> dom AIRPORT_MAPPINGS \<Longrightarrow>
     \<exists>n. airport_name airport_code = return_io n \<and> AIRPORT_MAPPINGS airport_code = Some n"
  by (auto simp: airport_name_def)

lemma set_departure_airport_unmapped:
  "code \<notin> dom AIRPORT_MAPPINGS \<Longrightarrow>
     set_departure_airport br code s = (Inl (ValueError (not_found_message code)), s)"
  by (simp add: set_departure_airport_def raise_io_def)

lemma set_arrival_airport_unmapped:
  "code \<notin> dom AIRPORT_MAPPINGS \<Longrightarrow>
     set_arrival_airport br code s = (Inl (ValueError (not_found_message code)), s)"
  by (simp add: set_arrival_airport_def raise_io_def)

lemma set_departure_airport_mapped:
  assumes "code \<in> dom AIRPORT_MAPPINGS"
  shows "fst (set_departure_airport br code s) = Inr ()
          \<or> (\<exists>m. fst (set_departure_airport br code s) = Inl (PlaywrightError m))"
proof -
  from airport_name_mapped [OF assms] obtain n where "airport_name code = return_io n" by blast
  with assms show ?thesis
    by (simp add: set_departure_airport_def io_defs Let_def split: option.splits)
qed

lemma set_arrival_airport_mapped:
  assumes "code \<in> dom AIRPORT_MAPPINGS"
  shows "fst (set_arrival_airport br code s) = Inr ()
          \<or> (\<exists>m. fst (set_arrival_airport br code s) = Inl (PlaywrightError m))"
proof -
  from airport_name_mapped [OF assms] obtain n where "airport_name code = return_io n" by blast
  with assms show ?thesis
    by (simp add: set_arrival_airport_def io_defs Let_def split: option.splits)
qed

text \<open>
  C4. For a code that is not in the airport mapping, \<open>set_departure_airport\<close> and
  \<open>set_arrival_airport\<close> raise the validation error and leave the page as it was: no
  call has been issued. For a mapped code, such as \<open>RTM\<close>, neither raises a validation
  error.
\<close>

theorem airport_validation_before_ui:
  "(code \<notin> dom AIRPORT_MAPPINGS \<longrightarrow>
      set_departure_airport br code s = (Inl (ValueError (not_found_message code)), s)
      \<and> set_arrival_airport br code s = (Inl (ValueError (not_found_message code)), s))
   \<and> (code \<in> dom AIRPORT_MAPPINGS \<longrightarrow>
        (\<forall>m. fst (set_departure_airport br code s) \<noteq> Inl (ValueError m))
        \<and> (\<forall>m. fst (set_arrival_airport br code s) \<noteq> Inl (ValueError m)))
   \<and> ''RTM'' \<in> dom AIRPORT_MAPPINGS"
proof (intro conjI impI allI)
  assume "code \<notin> dom AIRPORT_MAPPINGS"
  then show "set_departure_airport br code s = (Inl (ValueError (not_found_message code)), s)"
    by (rule set_departure_airport_unmapped)
next
  assume "code \<notin> dom AIRPORT_MAPPINGS"
  then show "set_arrival_airport br code s = (Inl (ValueError (not_found_message code)), s)"
    by (rule set_arrival_airport_unmapped)
next
  fix m assume "code \<in> dom AIRPORT_MAPPINGS"
  from set_departure_airport_mapped [OF this, of br s]
  show "fst (set_departure_airport br code s) \<noteq> Inl (ValueError m)" by auto
next
  fix m assume "code \<in> dom AIRPORT_MAPPINGS"
  from set_arrival_airport_mapped [OF this, of br s]
  show "fst (set_arrival_airport br code s) \<noteq> Inl (ValueError m)" by auto
next
  show "''RTM'' \<in> dom AIRPORT_MAPPINGS" by (simp add: dom_AIRPORT_MAPPINGS)
qed

theorem airport_validation_before_ui_witness:
  "set_departure_airport ok_browser ''ZZZ'' initial_ui
     = (Inl (ValueError ''Airport code 'ZZZ' not found in mappings''), initial_ui)
   \<and> set_arrival_airport ok_browser ''ZZZ'' initial_ui
     = (Inl (ValueError ''Airport code 'ZZZ' not found in mappings''), initial_ui)
   \<and> fst (set_departure_airport ok_browser ''RTM'' initial_ui)
     \<noteq> Inl (ValueError ''Airport code 'RTM' not found in mappings'')"
proof -
  have z: "''ZZZ'' \<notin> dom AIRPORT_MAPPINGS" by (simp add: dom_AIRPORT_MAPPINGS)
  have r: "''RTM'' \<in> dom AIRPORT_MAPPINGS" by (simp add: dom_AIRPORT_MAPPINGS)
  have m: "not_found_message ''ZZZ'' = ''Airport code 'ZZZ' not found in mappings''"
    by (simp add: not_found_message_def)
  from airport_validation_before_ui [of "''ZZZ''" ok_browser initial_ui] z m
  have a: "set_departure_airport ok_browser ''ZZZ'' initial_ui
     = (Inl (ValueError ''Airport code 'ZZZ' not found in mappings''), initial_ui)
   \<and> set_arrival_airport ok_browser ''ZZZ'' initial_ui
     = (Inl (ValueError ''Airport code 'ZZZ' not found in mappings''), initial_ui)"
    by simp
  from airport_validation_before_ui [of "''RTM''" ok_browser initial_ui] r
  have b: "fst (set_departure_airport ok_browser ''RTM'' initial_ui)
     \<noteq> Inl (ValueError ''Airport code 'RTM' not found in mappings'')"
    by blast
  from a b show ?thesis by blast
qed

text \<open>
  C10. The mapping has exactly the two codes \<open>RTM\<close> and \<open>MAD\<close>, with the display
  names \<open>Rome, Italy\<close> and \<open>Madrid, Spain\<close>; both operations raise the validation
  error exactly for the strings outside this set.
\<close>

theorem accepted_airport_codes:
  "dom AIRPORT_MAPPINGS = {''RTM'', ''MAD''}
   \<and> AIRPORT_MAPPINGS ''RTM'' = Some ''Rome, Italy''
   \<and> AIRPORT_MAPPINGS ''MAD'' = Some ''Madrid, Spain''
   \<and> ((\<exists>m. fst (set_departure_airport br code s) = Inl (ValueError m))
        \<longleftrightarrow> code \<notin> {''RTM'', ''MAD''})
   \<and> ((\<exists>m. fst (set_arrival_airport br code s) = Inl (ValueError m))
        \<longleftrightarrow> code \<notin> {''RTM'', ''MAD''})"
proof (intro conjI)
  show "dom AIRPORT_MAPPINGS = {''RTM'', ''MAD''}" by (rule dom_AIRPORT_MAPPINGS)
  show "AIRPORT_MAPPINGS ''RTM'' = Some ''Rome, Italy''" by (simp add: AIRPORT_MAPPINGS_def)
  show "AIRPORT_MAPPINGS ''MAD'' = Some ''Madrid, Spain''" by (simp add: AIRPORT_MAPPINGS_def)
  show "(\<exists>m. fst (set_departure_airport br code s) = Inl (ValueError m))
          \<longleftrightarrow> code \<notin> {''RTM'', ''MAD''}"
  proof (cases "code \<in> dom AIRPORT_MAPPINGS")
    case True
    from set_departure_airport_mapped [OF this, of br s] True show ?thesis
      by (auto simp: dom_AIRPORT_MAPPINGS)
  next
    case False
    then show ?thesis
      by (simp add: set_departure_airport_unmapped dom_AIRPORT_MAPPINGS)
  qed
  show "(\<exists>m. fst (set_arrival_airport br code s) = Inl (ValueError m))
          \<longleftrightarrow> code \<notin> {''RTM'', ''MAD''}"
  proof (cases "code \<in> dom AIRPORT_MAPPINGS")
    case True
    from set_arrival_airport_mapped [OF this, of br s] True show ?thesis
      by (auto simp: dom_AIRPORT_MAPPINGS)
  next
    case False
    then show ?thesis
      by (simp add: set_arrival_airport_unmapped dom_AIRPORT_MAPPINGS)
  qed
qed


theorem accepted_airport_codes_witness:
  "(\<exists>m. fst (set_departure_airport ok_browser ''AMS'' initial_ui) = Inl (ValueError m))
   \<and> (\<exists>m. fst (set_arrival_airport ok_browser ''rtm'' initial_ui) = Inl (ValueError m))
   \<and> \<not> (\<exists>m. fst (set_departure_airport ok_browser ''RTM'' initial_ui) = Inl (ValueError m))
   \<and> \<not> (\<exists>m. fst (set_arrival_airport ok_browser ''MAD'' initial_ui) = Inl (ValueError m))"
proof -
  have n1: "''AMS'' \<notin> {''RTM'', ''MAD''}" by simp
  have n2: "''rtm'' \<notin> {''RTM'', ''MAD''}" by simp
  have y1: "''RTM'' \<in> {''RTM'', ''MAD''}" by simp
  have y2: "''MAD'' \<in> {''RTM'', ''MAD''}" by simp
  from accepted_airport_codes [of ok_browser "''AMS''" initial_ui] n1
  have a: "\<exists>m. fst (set_departure_airport ok_browser ''AMS'' initial_ui) = Inl (ValueError m)"
    by blast
  from accepted_airport_codes [of ok_browser "''rtm''" initial_ui] n2
  have b: "\<exists>m. fst (set_arrival_airport ok_browser ''rtm'' initial_ui) = Inl (ValueError m)"
    by blast
  from accepted_airport_codes [of ok_browser "''RTM''" initial_ui] y1
  have c: "\<not> (\<exists>m. fst (set_departure_airport ok_browser ''RTM'' initial_ui) = Inl (ValueError m))"
    by blast
  from accepted_airport_codes [of ok_browser "''MAD''" initial_ui] y2
  have d: "\<not> (\<exists>m. fst (set_arrival_airport ok_browser ''MAD'' initial_ui) = Inl (ValueError m))"
    by blast
  from a b c d show ?thesis by blast
qed

section \<open>Departure time and check box\<close>

lemma set_departure_date_calls:
  "\<exists>rest. calls (snd (set_departure_date br today n s))
     = calls s @ Click departure_date_input None # rest"
  by (auto simp: set_departure_date_def io_defs Let_def split: option.splits sum.splits)

text \<open>
  C7. The departure-time step runs \<open>set_departure_date\<close> with \<open>value * 7\<close> for the units
  \<open>week\<close> and \<open>weeks\<close>, and with \<open>value\<close> for \<open>day\<close> and \<open>days\<close>. For every other
  unit it raises an error and the page is as before; since \<open>set_departure_date\<close> always
  issues a call, it has not been run.
\<close>

theorem set_departure_time_units:
  "(unit = ''week'' \<or> unit = ''weeks'' \<longrightarrow>
      set_departure_time br today v unit s = set_departure_date br today (v * 7) s)
   \<and> (unit = ''day'' \<or> unit = ''days'' \<longrightarrow>
      set_departure_time br today v unit s = set_departure_date br today v s)
   \<and> (unit \<notin> {''week'', ''weeks'', ''day'', ''days''} \<longrightarrow>
      set_departure_time br today v unit s
        = (Inl (ValueError (unsupported_unit_message unit)), s))
   \<and> (\<forall>n. calls (snd (set_departure_date br today n s)) \<noteq> calls s)"
proof (intro conjI impI allI)
  assume "unit = ''week'' \<or> unit = ''weeks''"
  then show "set_departure_time br today v unit s = set_departure_date br today (v * 7) s"
    by (auto simp: set_departure_time_def bind_io_def return_io_def)
next
  assume "unit = ''day'' \<or> unit = ''days''"
  then show "set_departure_time br today v unit s = set_departure_date br today v s"
    by (auto simp: set_departure_time_def bind_io_def return_io_def)
next
  assume "unit \<notin> {''week'', ''weeks'', ''day'', ''days''}"
  then show "set_departure_time br today v unit s
        = (Inl (ValueError (unsupported_unit_message unit)), s)"
    by (simp add: set_departure_time_def bind_io_def raise_io_def)
next
  fix n
  from set_departure_date_calls [of br today n s]
  show "calls (snd (set_departure_date br today n s)) \<noteq> calls s" by auto
qed

theorem set_departure_time_units_witness:
  "set_departure_time ok_browser example_today 2 ''weeks'' initial_ui
     = set_departure_date ok_browser example_today 14 initial_ui
   \<and> set_departure_time ok_browser example_today 14 ''days'' initial_ui
     = set_departure_date ok_browser example_today 14 initial_ui
   \<and> set_departure_time ok_browser example_today 1 ''month'' initial_ui
     = (Inl (ValueError ''Unsupported time unit: month. Please use 'week(s)' or 'day(s)'.''),
        initial_ui)"
proof -
  have u: "''month'' \<notin> {''week'', ''weeks'', ''day'', ''days''}" by simp
  have m: "unsupported_unit_message ''month''
             = ''Unsupported time unit: month. Please use 'week(s)' or 'day(s)'.''"
    by (simp add: unsupported_unit_message_def)
  from set_departure_time_units [of "''weeks''" ok_browser example_today 2 initial_ui]
  have a: "set_departure_time ok_browser example_today 2 ''weeks'' initial_ui
     = set_departure_date ok_browser example_today 14 initial_ui"
    by simp
  from set_departure_time_units [of "''days''" ok_browser example_today 14 initial_ui]
  have b: "set_departure_time ok_browser example_today 14 ''days'' initial_ui
     = set_departure_date ok_browser example_today 14 initial_ui"
    by simp
  from set_departure_time_units [of "''month''" ok_browser example_today 1 initial_ui] u m
  have c: "set_departure_time ok_browser example_today 1 ''month'' initial_ui
     = (Inl (ValueError ''Unsupported time unit: month. Please use 'week(s)' or 'day(s)'.''),
        initial_ui)"
    by simp
  from a b c show ?thesis by blast
qed

text \<open>
  C8. \<open>uncheck_accommodation_option\<close> asks whether the check box is checked. When the
  answer is yes it clicks the icon; when the answer is no it returns with nothing but the
  question issued. A click is among its calls if and only if the box was reported checked.
\<close>

theorem uncheck_clicks_iff_checked:
  "(fails br (calls s) (IsChecked accommodation_checkbox) = None
      \<and> answers br (calls s) (IsChecked accommodation_checkbox) \<longrightarrow>
      calls (snd (uncheck_accommodation_option br s))
        = calls s @ [IsChecked accommodation_checkbox, Click checkbox_icon None])
   \<and> (fails br (calls s) (IsChecked accommodation_checkbox) = None
      \<and> \<not> answers br (calls s) (IsChecked accommodation_checkbox) \<longrightarrow>
      uncheck_accommodation_option br s
        = (Inr (), s\<lparr>calls := calls s @ [IsChecked accommodation_checkbox]\<rparr>))
   \<and> ((\<exists>l t. Click l t \<in> set (new_calls s (snd (uncheck_accommodation_option br s))))
        \<longleftrightarrow> fails br (calls s) (IsChecked accommodation_checkbox) = None
            \<and> answers br (calls s) (IsChecked accommodation_checkbox))"
  by (auto simp: uncheck_accommodation_option_def io_defs new_calls_def Let_def
           split: option.splits)


theorem uncheck_clicks_iff_checked_witness:
  "calls (snd (uncheck_accommodation_option checkbox_browser initial_ui))
     = [IsChecked accommodation_checkbox, Click checkbox_icon None]
   \<and> uncheck_accommodation_option checkbox_browser
         (snd (uncheck_accommodation_option checkbox_browser initial_ui))
       = (Inr (), \<lparr>calls = [IsChecked accommodation_checkbox, Click checkbox_icon None,
                            IsChecked accommodation_checkbox],
                   printed = []\<rparr>)"
proof -
  have c0: "calls initial_ui = []" by (simp add: initial_ui_def)
  have f: "\<And>h c. fails checkbox_browser h c = None" by (simp add: checkbox_browser_def)
  have a1: "answers checkbox_browser [] (IsChecked accommodation_checkbox)"
    by (simp add: checkbox_browser_def)
  from uncheck_clicks_iff_checked [of checkbox_browser initial_ui] f a1 c0
  have first: "calls (snd (uncheck_accommodation_option checkbox_browser initial_ui))
     = [IsChecked accommodation_checkbox, Click checkbox_icon None]"
    by simp
  define s1 where "s1 = snd (uncheck_accommodation_option checkbox_browser initial_ui)"
  have p1: "printed s1 = []"
    by (simp add: s1_def uncheck_accommodation_option_def io_defs Let_def initial_ui_def
          checkbox_browser_def)
  have c1: "calls s1 = [IsChecked accommodation_checkbox, Click checkbox_icon None]"
    using first by (simp add: s1_def)
  have a2: "\<not> answers checkbox_browser (calls s1) (IsChecked accommodation_checkbox)"
    by (simp add: c1 checkbox_browser_def)
  from uncheck_clicks_iff_checked [of checkbox_browser s1] f a2
  have "uncheck_accommodation_option checkbox_browser s1
          = (Inr (), s1\<lparr>calls := calls s1 @ [IsChecked accommodation_checkbox]\<rparr>)"
    by blast
  also have "s1\<lparr>calls := calls s1 @ [IsChecked accommodation_checkbox]\<rparr>
          = \<lparr>calls = [IsChecked accommodation_checkbox, Click checkbox_icon None,
                            IsChecked accommodation_checkbox],
                   printed = []\<rparr>"
    using c1 p1 by simp
  finally show ?thesis using first by (simp add: s1_def)
qed

section \<open>The active page reference\<close>

lemma makereport_keeps_page:
  "test_failed_page (pytest_runtest_makereport t when failed h) = test_failed_page h"
  by (simp add: pytest_runtest_makereport_def split: option.splits sum.splits)

lemma run_test_clears: "test_failed_page (run_test t tc h) = None"
  by (simp add: run_test_def test_states_def Let_def makereport_keeps_page page_teardown_def)

lemma run_tests_clears:
  "test_failed_page (run_tests t tcs h) = (if tcs = [] then test_failed_page h else None)"
  by (induction tcs arbitrary: h) (auto simp: run_test_clears)

text \<open>
  C9. For every test, whatever its outcome: the reference is the test's page once the
  fixture is set up and stays so through the call phase and its report; after the test it
  is empty. Hence after any number of tests of a session the reference is empty.
\<close>

theorem active_page_reference_cleared:
  "test_failed_page (page_setup (tc_page tc) h) = Some (tc_page tc)
   \<and> (\<forall>h'\<in>set (take 3 (test_states t tc h)). test_failed_page h' = Some (tc_page tc))
   \<and> test_failed_page (run_test t tc h) = None
   \<and> (\<forall>k\<le>length tcs. test_failed_page (run_tests t (take k tcs) initial_harness) = None)"
proof (intro conjI ballI allI impI)
  show "test_failed_page (page_setup (tc_page tc) h) = Some (tc_page tc)"
    by (simp add: page_setup_def)
next
  fix h' assume "h' \<in> set (take 3 (test_states t tc h))"
  then show "test_failed_page h' = Some (tc_page tc)"
    by (auto simp: test_states_def Let_def makereport_keeps_page page_setup_def)
next
  show "test_failed_page (run_test t tc h) = None" by (rule run_test_clears)
next
  fix k assume "k \<le> length tcs"
  show "test_failed_page (run_tests t (take k tcs) initial_harness) = None"
    by (simp add: run_tests_clears initial_harness_def)
qed


theorem active_page_reference_cleared_witness:
  "test_failed_page (page_setup 7 (initial_harness :: nat harness)) = Some 7
   \<and> map test_failed_page
        (test_states example_tools \<lparr>tc_page = 7, tc_failed = True\<rparr> initial_harness)
       = [Some 7, Some 7, Some 7, None, None]
   \<and> test_failed_page
        (run_tests example_tools
           [\<lparr>tc_page = 7, tc_failed = True\<rparr>, \<lparr>tc_page = 8, tc_failed = False\<rparr>]
           initial_harness) = None"
proof -
  let ?tc = "\<lparr>tc_page = 7 :: nat, tc_failed = True\<rparr>"
  let ?tcs = "[?tc, \<lparr>tc_page = 8, tc_failed = False\<rparr>]"
  note t = active_page_reference_cleared [of ?tc initial_harness example_tools ?tcs]
  have len: "length (test_states example_tools ?tc initial_harness) = 5"
    by (simp add: test_states_def Let_def)
  from t have a: "test_failed_page (page_setup 7 (initial_harness :: nat harness)) = Some 7"
    by simp
  from t have "\<forall>h'\<in>set (take 3 (test_states example_tools ?tc initial_harness)).
                  test_failed_page h' = Some 7"
    by simp
  then have b3: "map test_failed_page (take 3 (test_states example_tools ?tc initial_harness))
                  = [Some 7, Some 7, Some 7]"
    by (simp add: test_states_def Let_def)
  have b2: "map test_failed_page (drop 3 (test_states example_tools ?tc initial_harness))
                  = [None, None]"
    by (simp add: test_states_def Let_def page_teardown_def makereport_keeps_page)
  have b: "map test_failed_page (test_states example_tools ?tc initial_harness)
             = [Some 7, Some 7, Some 7, None, None]"
    using b3 b2
    by (metis append_Cons append_Nil append_take_drop_id map_append)
  from t have "2 \<le> length ?tcs \<longrightarrow>
      test_failed_page (run_tests example_tools (take 2 ?tcs) initial_harness) = None"
    by blast
  then have c: "test_failed_page (run_tests example_tools ?tcs initial_harness) = None"
    by simp
  from a b c show ?thesis by blast
qed

section \<open>Which failures reach the caller\<close>

text \<open>
  C3, as the specification states it, fails: when the click into the departure input runs
  into its timeout, \<open>set_departure_airport\<close> ends with the library's error.
\<close>

theorem page_object_errors_counterexample:
  "set_departure_airport click_timeout_browser ''RTM'' initial_ui
     = (Inl (PlaywrightError ''Timeout 30000ms exceeded.''),
        \<lparr>calls = [IsVisible clear_button_on_departure None, Click from_airport_input None],
         printed = []\<rparr>)"
  by (simp add: set_departure_airport_def AIRPORT_MAPPINGS_def io_defs Let_def
        click_timeout_browser_def initial_ui_def)

lemma consent_is_soft:
  "\<exists>b. fst (accept_privacy_consent cfg br s) = Inr b"
  by (auto simp: accept_privacy_consent_def io_defs Let_def split: option.splits)

lemma consent_failure:
  assumes "failures br (calls s) (new_calls s (snd (accept_privacy_consent cfg br s))) \<noteq> []"
  shows "fst (accept_privacy_consent cfg br s) = Inr False
         \<and> (\<exists>m. failures br (calls s) (new_calls s (snd (accept_privacy_consent cfg br s))) = [m]
               \<and> printed (snd (accept_privacy_consent cfg br s))
                   = printed s @ [''Error while accepting privacy consent: '' @ m])"
  using assms
  by (auto simp: accept_privacy_consent_def io_defs Let_def new_calls_def
           split: option.splits if_splits)

lemma propagates_select_one_way_trip: "propagates br (select_one_way_trip br) s"
  by (simp add: propagates_def select_one_way_trip_def io_defs Let_def new_calls_def
           split: option.splits)

lemma propagates_click_search_button: "propagates br (click_search_button br) s"
  by (simp add: propagates_def click_search_button_def io_defs Let_def new_calls_def
           split: option.splits)

lemma propagates_uncheck: "propagates br (uncheck_accommodation_option br) s"
  by (simp add: propagates_def uncheck_accommodation_option_def io_defs Let_def new_calls_def
           split: option.splits)

lemma timedelta_days_error: "timedelta_days n = Inl e \<Longrightarrow> e = OverflowError"
  by (simp add: timedelta_days_def split: if_splits)

lemma date_add_error: "date_add d n = Inl e \<Longrightarrow> e = OverflowError"
  by (simp add: date_add_def Let_def split: if_splits)

lemma propagates_set_departure_date: "propagates br (set_departure_date br today n) s"
  by (auto simp: propagates_def set_departure_date_def io_defs Let_def new_calls_def
           split: option.splits sum.splits dest: timedelta_days_error date_add_error)

lemma propagates_set_departure_airport: "propagates br (set_departure_airport br code) s"
proof (cases "code \<in> dom AIRPORT_MAPPINGS")
  case True
  from airport_name_mapped [OF this] obtain n where "airport_name code = return_io n" by blast
  with True show ?thesis
    by (simp add: propagates_def set_departure_airport_def io_defs Let_def new_calls_def
           split: option.splits)
next
  case False
  then show ?thesis
    by (simp add: propagates_def set_departure_airport_def raise_io_def new_calls_def)
qed

lemma propagates_set_arrival_airport: "propagates br (set_arrival_airport br code) s"
proof (cases "code \<in> dom AIRPORT_MAPPINGS")
  case True
  from airport_name_mapped [OF this] obtain n where "airport_name code = return_io n" by blast
  with True show ?thesis
    by (simp add: propagates_def set_arrival_airport_def io_defs Let_def new_calls_def
           split: option.splits)
next
  case False
  then show ?thesis
    by (simp add: propagates_def set_arrival_airport_def raise_io_def new_calls_def)
qed

lemma navigate_errors:
  assumes "fst (navigate cfg br s) = Inl e"
  shows "\<exists>m. e = PlaywrightError m
           \<and> (fails br (calls s) (Goto (BASE_URL cfg)) = Some m
              \<or> fails br (calls s @ [Goto (BASE_URL cfg)]) (WaitForLoadState ''load'') = Some m)"
proof -
  obtain r s' where c: "accept_privacy_consent cfg br
      (s\<lparr>calls := calls s @ [Goto (BASE_URL cfg), WaitForLoadState ''load'']\<rparr>) = (r, s')"
    by (cases "accept_privacy_consent cfg br
      (s\<lparr>calls := calls s @ [Goto (BASE_URL cfg), WaitForLoadState ''load'']\<rparr>)")
  from consent_is_soft [of cfg br "s\<lparr>calls := calls s @ [Goto (BASE_URL cfg), WaitForLoadState ''load'']\<rparr>"] c
  obtain b where "r = Inr b" by auto
  with assms c show ?thesis
    by (auto simp: navigate_def bind_io_def return_io_def goto_def wait_for_load_state_def
          perform_def Let_def split: option.splits)
qed

lemma airport_errors:
  "fst (set_departure_airport br code s) = Inl e \<Longrightarrow>
     (e = ValueError (not_found_message code) \<and> code \<notin> dom AIRPORT_MAPPINGS)
     \<or> (\<exists>m. e = PlaywrightError m)"
  "fst (set_arrival_airport br code s) = Inl e \<Longrightarrow>
     (e = ValueError (not_found_message code) \<and> code \<notin> dom AIRPORT_MAPPINGS)
     \<or> (\<exists>m. e = PlaywrightError m)"
  using set_departure_airport_mapped [of code br s] set_departure_airport_unmapped [of code br s]
        set_arrival_airport_mapped [of code br s] set_arrival_airport_unmapped [of code br s]
  by (cases "code \<in> dom AIRPORT_MAPPINGS"; auto)+

lemma invisible_clear_is_skipped:
  assumes "code \<in> dom AIRPORT_MAPPINGS"
    and "fails br (calls s) (IsVisible clear_button_on_departure None) = None"
    and "\<not> answers br (calls s) (IsVisible clear_button_on_departure None)"
  shows "Click clear_button_on_departure None
           \<notin> set (new_calls s (snd (set_departure_airport br code s)))"
proof -
  from airport_name_mapped [OF assms(1)] obtain n where "airport_name code = return_io n" by blast
  moreover have "from_airport_input \<noteq> clear_button_on_departure"
    by (simp add: from_airport_input_def clear_button_on_departure_def)
  ultimately show ?thesis using assms
    by (simp add: set_departure_airport_def io_defs Let_def new_calls_def
          clear_button_on_departure_def split: option.splits)
qed

lemma select_one_way_trip_errors:
  "fst (select_one_way_trip br s) = Inl e \<Longrightarrow> \<exists>m. e = PlaywrightError m"
  by (auto simp: select_one_way_trip_def io_defs Let_def split: option.splits)

lemma uncheck_errors:
  "fst (uncheck_accommodation_option br s) = Inl e \<Longrightarrow> \<exists>m. e = PlaywrightError m"
  by (auto simp: uncheck_accommodation_option_def io_defs Let_def split: option.splits if_splits)

lemma click_search_button_errors:
  "fst (click_search_button br s) = Inl e \<Longrightarrow> \<exists>m. e = PlaywrightError m"
  by (auto simp: click_search_button_def io_defs Let_def split: option.splits)

lemma timedelta_days_value: "timedelta_days n = Inr k \<Longrightarrow> k = n"
  by (simp add: timedelta_days_def split: if_splits)

lemma set_departure_date_errors:
  "fst (set_departure_date br today n s) = Inl e \<Longrightarrow>
     (e = OverflowError
        \<and> (timedelta_days n = Inl OverflowError \<or> date_add today n = Inl OverflowError))
     \<or> (\<exists>m. e = PlaywrightError m)"
  by (auto simp: set_departure_date_def io_defs Let_def split: option.splits sum.splits
           dest: timedelta_days_error date_add_error timedelta_days_value)

lemma invisible_clear_arrival_is_skipped:
  assumes "code \<in> dom AIRPORT_MAPPINGS"
    and "fails br (calls s) (IsVisible clear_button_on_arrival None) = None"
    and "\<not> answers br (calls s) (IsVisible clear_button_on_arrival None)"
  shows "Click clear_button_on_arrival None
           \<notin> set (new_calls s (snd (set_arrival_airport br code s)))"
proof -
  from airport_name_mapped [OF assms(1)] obtain n where "airport_name code = return_io n" by blast
  moreover have "to_airport_input \<noteq> clear_button_on_arrival"
    by (simp add: to_airport_input_def clear_button_on_arrival_def)
  ultimately show ?thesis using assms
    by (simp add: set_arrival_airport_def io_defs Let_def new_calls_def
          clear_button_on_arrival_def split: option.splits)
qed

text \<open>
  C3, amended. The only error an operation raises by a check of its own is the validation
  error of the two airport operations. Beyond it an operation ends only with an error of
  the browser library or, in \<open>set_departure_date\<close>, with the \<open>OverflowError\<close> of the
  date arithmetic. The consent step never ends with an error: a failure of one of its
  calls is caught, printed, and answered with False, so \<open>navigate\<close> can fail only in
  loading the page. No other operation has a handler: it ends with the library's error
  exactly when one of its calls failed, with the message of that call. A clear control,
  of the departure or of the arrival input, that is not visible is skipped.
\<close>

theorem page_object_error_policy:
  "(\<exists>b. fst (accept_privacy_consent cfg br s) = Inr b)
   \<and> (failures br (calls s) (new_calls s (snd (accept_privacy_consent cfg br s))) \<noteq> [] \<longrightarrow>
        fst (accept_privacy_consent cfg br s) = Inr False
        \<and> (\<exists>m. failures br (calls s) (new_calls s (snd (accept_privacy_consent cfg br s))) = [m]
              \<and> printed (snd (accept_privacy_consent cfg br s))
                  = printed s @ [''Error while accepting privacy consent: '' @ m]))
   \<and> (\<forall>e. fst (navigate cfg br s) = Inl e \<longrightarrow>
        (\<exists>m. e = PlaywrightError m
           \<and> (fails br (calls s) (Goto (BASE_URL cfg)) = Some m
              \<or> fails br (calls s @ [Goto (BASE_URL cfg)]) (WaitForLoadState ''load'') = Some m)))
   \<and> (\<forall>e. fst (set_departure_airport br code s) = Inl e \<longrightarrow>
        (e = ValueError (not_found_message code) \<and> code \<notin> dom AIRPORT_MAPPINGS)
        \<or> (\<exists>m. e = PlaywrightError m))
   \<and> (\<forall>e. fst (set_arrival_airport br code s) = Inl e \<longrightarrow>
        (e = ValueError (not_found_message code) \<and> code \<notin> dom AIRPORT_MAPPINGS)
        \<or> (\<exists>m. e = PlaywrightError m))
   \<and> propagates br (select_one_way_trip br) s
   \<and> propagates br (set_departure_airport br code) s
   \<and> propagates br (set_arrival_airport br code) s
   \<and> propagates br (set_departure_date br today n) s
   \<and> propagates br (uncheck_accommodation_option br) s
   \<and> propagates br (click_search_button br) s
   \<and> (code \<in> dom AIRPORT_MAPPINGS
        \<and> fails br (calls s) (IsVisible clear_button_on_departure None) = None
        \<and> \<not> answers br (calls s) (IsVisible clear_button_on_departure None) \<longrightarrow>
        Click clear_button_on_departure None
          \<notin> set (new_calls s (snd (set_departure_airport br code s))))
   \<and> (code \<in> dom AIRPORT_MAPPINGS
        \<and> fails br (calls s) (IsVisible clear_button_on_arrival None) = None
        \<and> \<not> answers br (calls s) (IsVisible clear_button_on_arrival None) \<longrightarrow>
        Click clear_button_on_arrival None
          \<notin> set (new_calls s (snd (set_arrival_airport br code s))))
   \<and> (\<forall>e. fst (select_one_way_trip br s) = Inl e \<longrightarrow> (\<exists>m. e = PlaywrightError m))
   \<and> (\<forall>e. fst (uncheck_accommodation_option br s) = Inl e \<longrightarrow> (\<exists>m. e = PlaywrightError m))
   \<and> (\<forall>e. fst (click_search_button br s) = Inl e \<longrightarrow> (\<exists>m. e = PlaywrightError m))
   \<and> (\<forall>e. fst (set_departure_date br today n s) = Inl e \<longrightarrow>
        (e = OverflowError
           \<and> (timedelta_days n = Inl OverflowError \<or> date_add today n = Inl OverflowError))
        \<or> (\<exists>m. e = PlaywrightError m))"
proof (intro conjI)
  show "\<exists>b. fst (accept_privacy_consent cfg br s) = Inr b"
    by (rule consent_is_soft)
  show "failures br (calls s) (new_calls s (snd (accept_privacy_consent cfg br s))) \<noteq> [] \<longrightarrow>
        fst (accept_privacy_consent cfg br s) = Inr False
        \<and> (\<exists>m. failures br (calls s) (new_calls s (snd (accept_privacy_consent cfg br s))) = [m]
              \<and> printed (snd (accept_privacy_consent cfg br s))
                  = printed s @ [''Error while accepting privacy consent: '' @ m])"
    by (intro impI) (rule consent_failure)
  show "\<forall>e. fst (navigate cfg br s) = Inl e \<longrightarrow>
        (\<exists>m. e = PlaywrightError m
           \<and> (fails br (calls s) (Goto (BASE_URL cfg)) = Some m
              \<or> fails br (calls s @ [Goto (BASE_URL cfg)]) (WaitForLoadState ''load'') = Some m))"
    by (intro allI impI) (rule navigate_errors)
  show "\<forall>e. fst (set_departure_airport br code s) = Inl e \<longrightarrow>
        (e = ValueError (not_found_message code) \<and> code \<notin> dom AIRPORT_MAPPINGS)
        \<or> (\<exists>m. e = PlaywrightError m)"
    by (intro allI impI) (rule airport_errors)
  show "\<forall>e. fst (set_arrival_airport br code s) = Inl e \<longrightarrow>
        (e = ValueError (not_found_message code) \<and> code \<notin> dom AIRPORT_MAPPINGS)
        \<or> (\<exists>m. e = PlaywrightError m)"
    by (intro allI impI) (rule airport_errors)
  show "propagates br (select_one_way_trip br) s"
    by (rule propagates_select_one_way_trip)
  show "propagates br (set_departure_airport br code) s"
    by (rule propagates_set_departure_airport)
  show "propagates br (set_arrival_airport br code) s"
    by (rule propagates_set_arrival_airport)
  show "propagates br (set_departure_date br today n) s"
    by (rule propagates_set_departure_date)
  show "propagates br (uncheck_accommodation_option br) s"
    by (rule propagates_uncheck)
  show "propagates br (click_search_button br) s"
    by (rule propagates_click_search_button)
  show "code \<in> dom AIRPORT_MAPPINGS
        \<and> fails br (calls s) (IsVisible clear_button_on_departure None) = None
        \<and> \<not> answers br (calls s) (IsVisible clear_button_on_departure None) \<longrightarrow>
        Click clear_button_on_departure None
          \<notin> set (new_calls s (snd (set_departure_airport br code s)))"
    using invisible_clear_is_skipped [of code br s] by blast
  show "code \<in> dom AIRPORT_MAPPINGS
        \<and> fails br (calls s) (IsVisible clear_button_on_arrival None) = None
        \<and> \<not> answers br (calls s) (IsVisible clear_button_on_arrival None) \<longrightarrow>
        Click clear_button_on_arrival None
          \<notin> set (new_calls s (snd (set_arrival_airport br code s)))"
    using invisible_clear_arrival_is_skipped [of code br s] by blast
  show "\<forall>e. fst (select_one_way_trip br s) = Inl e \<longrightarrow> (\<exists>m. e = PlaywrightError m)"
    by (intro allI impI) (rule select_one_way_trip_errors)
  show "\<forall>e. fst (uncheck_accommodation_option br s) = Inl e \<longrightarrow> (\<exists>m. e = PlaywrightError m)"
    by (intro allI impI) (rule uncheck_errors)
  show "\<forall>e. fst (click_search_button br s) = Inl e \<longrightarrow> (\<exists>m. e = PlaywrightError m)"
    by (intro allI impI) (rule click_search_button_errors)
  show "\<forall>e. fst (set_departure_date br today n s) = Inl e \<longrightarrow>
        (e = OverflowError
           \<and> (timedelta_days n = Inl OverflowError \<or> date_add today n = Inl OverflowError))
        \<or> (\<exists>m. e = PlaywrightError m)"
    by (intro allI impI) (rule set_departure_date_errors)
qed

theorem page_object_error_policy_witness:
  "fst (accept_privacy_consent example_config failing_browser initial_ui) = Inr False
   \<and> printed (snd (accept_privacy_consent example_config failing_browser initial_ui))
       = [''Error while accepting privacy consent: Timeout 30000ms exceeded.'']
   \<and> fst (navigate example_config failing_browser initial_ui)
       = Inl (PlaywrightError ''net::ERR_INTERNET_DISCONNECTED'')
   \<and> fst (set_departure_airport failing_browser ''ZZZ'' initial_ui)
       = Inl (ValueError (not_found_message ''ZZZ''))
   \<and> Click clear_button_on_departure None
       \<notin> set (new_calls initial_ui (snd (set_departure_airport click_timeout_browser ''RTM'' initial_ui)))
   \<and> Click clear_button_on_arrival None
       \<notin> set (new_calls initial_ui (snd (set_arrival_airport click_timeout_browser ''RTM'' initial_ui)))
   \<and> (\<exists>m. fst (click_search_button failing_browser initial_ui) = Inl (PlaywrightError m))
   \<and> fst (set_departure_date ok_browser example_today 3000000 initial_ui) = Inl OverflowError
   \<and> date_add example_today 3000000 = Inl OverflowError"
proof -
  note t1 = page_object_error_policy
              [of example_config failing_browser initial_ui "''ZZZ''" example_today 7]
  note t2 = page_object_error_policy
              [of example_config click_timeout_browser initial_ui "''RTM''" example_today 7]
  have c0: "calls initial_ui = []" "printed initial_ui = []" by (simp_all add: initial_ui_def)
  have cs: "calls (snd (accept_privacy_consent example_config failing_browser initial_ui))
              = [IsVisible privacy_popup_accept_button (Some 5000),
                 Click privacy_popup_accept_button (Some (DEFAULT_TIMEOUT example_config))]"
    by (simp add: accept_privacy_consent_def io_defs Let_def failing_browser_def initial_ui_def)
  have fl: "failures failing_browser (calls initial_ui)
              (new_calls initial_ui
                 (snd (accept_privacy_consent example_config failing_browser initial_ui)))
            = [''Timeout 30000ms exceeded.'']"
    by (simp add: new_calls_def c0 cs) (simp add: failing_browser_def)
  from t1 fl c0
  have a: "fst (accept_privacy_consent example_config failing_browser initial_ui) = Inr False
     \<and> printed (snd (accept_privacy_consent example_config failing_browser initial_ui))
           = [''Error while accepting privacy consent: Timeout 30000ms exceeded.'']"
    by simp
  have url: "BASE_URL example_config = ''https://www.kiwi.com/en/''"
    by (simp add: example_config_def Config_def get_env_int_def get_env_bool_def
          getenv_default_def)
  have g: "fails failing_browser (calls initial_ui) (Goto (BASE_URL example_config))
             = Some ''net::ERR_INTERNET_DISCONNECTED''"
          "fails failing_browser (calls initial_ui @ [Goto (BASE_URL example_config)])
             (WaitForLoadState ''load'') = None"
    by (simp_all add: failing_browser_def)
  have "\<exists>e. fst (navigate example_config failing_browser initial_ui) = Inl e"
    by (simp add: navigate_def io_defs Let_def failing_browser_def)
  then obtain e where e: "fst (navigate example_config failing_browser initial_ui) = Inl e" ..
  with t1 g have "e = PlaywrightError ''net::ERR_INTERNET_DISCONNECTED''" by auto
  with e have b: "fst (navigate example_config failing_browser initial_ui)
       = Inl (PlaywrightError ''net::ERR_INTERNET_DISCONNECTED'')"
    by simp
  have "\<exists>e. fst (set_departure_airport failing_browser ''ZZZ'' initial_ui) = Inl (ValueError e)"
    by (simp add: set_departure_airport_def dom_AIRPORT_MAPPINGS raise_io_def)
  then obtain m where
    m: "fst (set_departure_airport failing_browser ''ZZZ'' initial_ui) = Inl (ValueError m)" ..
  with t1 have c: "fst (set_departure_airport failing_browser ''ZZZ'' initial_ui)
       = Inl (ValueError (not_found_message ''ZZZ''))"
    by auto
  have v: "''RTM'' \<in> dom AIRPORT_MAPPINGS
        \<and> fails click_timeout_browser (calls initial_ui)
             (IsVisible clear_button_on_departure None) = None
        \<and> \<not> answers click_timeout_browser (calls initial_ui)
               (IsVisible clear_button_on_departure None)"
    by (simp add: dom_AIRPORT_MAPPINGS click_timeout_browser_def)
  with t2 have d: "Click clear_button_on_departure None
       \<notin> set (new_calls initial_ui
                 (snd (set_departure_airport click_timeout_browser ''RTM'' initial_ui)))"
    by blast
  have va: "''RTM'' \<in> dom AIRPORT_MAPPINGS
        \<and> fails click_timeout_browser (calls initial_ui)
             (IsVisible clear_button_on_arrival None) = None
        \<and> \<not> answers click_timeout_browser (calls initial_ui)
               (IsVisible clear_button_on_arrival None)"
    by (simp add: dom_AIRPORT_MAPPINGS click_timeout_browser_def)
  with t2 have d': "Click clear_button_on_arrival None
       \<notin> set (new_calls initial_ui
                 (snd (set_arrival_airport click_timeout_browser ''RTM'' initial_ui)))"
    by blast
  have "\<exists>e. fst (click_search_button failing_browser initial_ui) = Inl e"
    by (simp add: click_search_button_def io_defs Let_def failing_browser_def)
  then obtain e' where "fst (click_search_button failing_browser initial_ui) = Inl e'" ..
  with t1 have f: "\<exists>m. fst (click_search_button failing_browser initial_ui)
                     = Inl (PlaywrightError m)"
    by auto
  note t3 = page_object_error_policy
              [of example_config ok_browser initial_ui "''RTM''" example_today 3000000]
  have td: "timedelta_days 3000000 = Inr 3000000" by (simp add: timedelta_days_def)
  have ord: "toordinal example_today = 739925" by code_simp
  have da: "date_add example_today 3000000 = Inl OverflowError"
    by (simp add: date_add_def ord MAXORDINAL_def)
  have g: "fst (set_departure_date ok_browser example_today 3000000 initial_ui)
             = Inl OverflowError"
    using td da by (simp add: set_departure_date_def io_defs Let_def ok_browser_def)
  with t3 have h: "date_add example_today 3000000 = Inl OverflowError"
    using td by auto
  from a b c d d' f g h show ?thesis by blast
qed

section \<open>The departure date\<close>

text \<open>
  C5, as the specification states it for every non-negative offset, fails: the date type
  ends at 9999-12-31, and an offset that leads past it raises \<open>OverflowError\<close> after the
  date input has been clicked; no calendar cell is clicked.
\<close>

theorem set_departure_date_overflow_counterexample:
  "set_departure_date ok_browser example_today 3000000 initial_ui
     = (Inl OverflowError, \<lparr>calls = [Click departure_date_input None], printed = []\<rparr>)"
proof -
  have t: "toordinal example_today = 739925" by code_simp
  have "date_add example_today 3000000 = Inl OverflowError"
    by (simp add: date_add_def t MAXORDINAL_def)
  then show ?thesis
    by (simp add: set_departure_date_def io_defs Let_def timedelta_days_def ok_browser_def
          initial_ui_def)
qed

lemma date_add_in_range:
  assumes "valid_date today" "0 \<le> n" "toordinal today + n \<le> MAXORDINAL"
  shows "timedelta_days n = Inr n"
    and "date_add today n = Inr (fromordinal (toordinal today + n))"
    and "valid_date (fromordinal (toordinal today + n))"
    and "toordinal (fromordinal (toordinal today + n)) = toordinal today + n"
proof -
  from toordinal_positive [OF assms(1)] assms(2) have pos: "1 \<le> toordinal today + n" by simp
  from toordinal_positive [OF assms(1)] assms(2,3) show "timedelta_days n = Inr n"
    by (simp add: timedelta_days_def MAXORDINAL_def)
  from pos assms(3) show "date_add today n = Inr (fromordinal (toordinal today + n))"
    by (simp add: date_add_def Let_def)
  from fromordinal_valid [OF pos assms(3)]
  show "valid_date (fromordinal (toordinal today + n))"
    and "toordinal (fromordinal (toordinal today + n)) = toordinal today + n"
    by simp_all
qed

text \<open>
  C5, amended. For a non-negative offset \<open>n\<close> that stays within the date type, and once
  the click that opens the date picker has succeeded: the target is the one valid date
  whose ordinal is the ordinal of today plus \<open>n\<close> (today itself for \<open>n = 0\<close>), its
  \<open>%Y-%m-%d\<close> rendering is the ISO form \<open>YYYY-MM-DD\<close>, and the next call clicks the
  calendar cell with that value.
\<close>

theorem set_departure_date_target:
  assumes "valid_date today" and "0 \<le> n" and "toordinal today + n \<le> MAXORDINAL"
    and "fails br (calls s) (Click departure_date_input None) = None"
  shows "\<exists>target. date_add today n = Inr target \<and> valid_date target
           \<and> toordinal target = toordinal today + n
           \<and> (\<forall>d. valid_date d \<and> toordinal d = toordinal today + n \<longrightarrow> d = target)
           \<and> (n = 0 \<longrightarrow> target = today)
           \<and> strftime_ymd target = iso_date target
           \<and> (\<exists>rest. calls (snd (set_departure_date br today n s))
                 = calls s @ [Click departure_date_input None,
                              Click (calendar_day (iso_date target)) None] @ rest)"
proof -
  let ?target = "fromordinal (toordinal today + n)"
  note r = date_add_in_range [OF assms(1,2,3)]
  have iso: "strftime_ymd ?target = iso_date ?target" using r(3) by (rule strftime_ymd_iso)
  have uniq: "\<forall>d. valid_date d \<and> toordinal d = toordinal today + n \<longrightarrow> d = ?target"
    using r(3,4) by (auto intro: toordinal_inj)
  have zero: "n = 0 \<longrightarrow> ?target = today"
    using fromordinal_toordinal [OF assms(1)] by simp
  have "\<exists>rest. calls (snd (set_departure_date br today n s))
                 = calls s @ [Click departure_date_input None,
                              Click (calendar_day (iso_date ?target)) None] @ rest"
    using assms(4) r(1,2) iso
    by (simp add: set_departure_date_def io_defs Let_def split: option.splits)
  with r iso uniq zero show ?thesis by blast
qed

theorem set_departure_date_target_witness:
  "valid_date example_today \<and> toordinal example_today + 7 \<le> MAXORDINAL
   \<and> date_add example_today 7 = Inr \<lparr>year = 2026, month = 11, day = 12\<rparr>
   \<and> (\<exists>rest. calls (snd (set_departure_date ok_browser example_today 7 initial_ui))
         = [Click departure_date_input None, Click (calendar_day ''2026-11-12'') None] @ rest)"
proof -
  have v: "valid_date example_today" by code_simp
  have le: "toordinal example_today + 7 \<le> MAXORDINAL" by code_simp
  have ok: "fails ok_browser (calls initial_ui) (Click departure_date_input None) = None"
    by (simp add: ok_browser_def)
  have d: "date_add example_today 7 = Inr \<lparr>year = 2026, month = 11, day = 12\<rparr>" by code_simp
  have i: "iso_date \<lparr>year = 2026, month = 11, day = 12\<rparr> = ''2026-11-12''" by code_simp
  from set_departure_date_target [OF v _ le ok]
  obtain target rest where
    "date_add example_today 7 = Inr target"
    "calls (snd (set_departure_date ok_browser example_today 7 initial_ui))
       = calls initial_ui @ [Click departure_date_input None,
                              Click (calendar_day (iso_date target)) None] @ rest"
    by auto
  with d i have "calls (snd (set_departure_date ok_browser example_today 7 initial_ui))
       = [Click departure_date_input None, Click (calendar_day ''2026-11-12'') None] @ rest"
    by (simp add: initial_ui_def)
  with v le d show ?thesis by blast
qed

end
